theory Spec2Isabelle
  imports Complex_Main
begin

section \<open>Graph model (types.ts)\<close>

text \<open>
  JavaScript strings are modelled as HOL strings; text outside ASCII is given by its
  UTF-8 bytes. The model compares strings, tests them for emptiness and searches them
  for substrings itself. \<open>String.prototype.toLowerCase\<close> and \<open>String.prototype.trim\<close>, whose
  Unicode tables belong to the platform and not to the repository, are parameters of the
  functions that call them, so that every theorem holds for the built-ins as they are.

  The selectors \<open>id\<close> and \<open>group\<close> of \<open>GraphNode\<close> and \<open>color\<close> of \<open>GraphLink\<close> carry a suffix,
  since the plain names are taken. The optional layout coordinates of a node
  (\<open>x\<close>, \<open>y\<close>, \<open>z\<close>, \<open>fx\<close>, \<open>fy\<close>, \<open>fz\<close>) are written by the renderer only and are left out.
  The \<open>group\<close> of a node is the string the source compares and looks up in \<open>activeGroups\<close>.
\<close>

record GraphNode =
  id_n :: string
  name :: string
  group_n :: string
  val :: real
  desc :: "string option"
  evidence :: "string option"
  analysis :: "string option"
  color :: "string option"

text \<open>A link endpoint is \<open>string | GraphNode\<close>: a plain id, or a node written in place.\<close>

datatype endpoint = Id string | Ref GraphNode

record GraphLink =
  source :: endpoint
  target :: endpoint
  color_l :: "string option"

record GraphData =
  nodes :: "GraphNode list"
  links :: "GraphLink list"

section \<open>String search (String.prototype.includes)\<close>

fun startsWith :: "string \<Rightarrow> string \<Rightarrow> bool" where
  "startsWith s [] = True"
| "startsWith [] (y # ys) = False"
| "startsWith (x # xs) (y # ys) = (x = y \<and> startsWith xs ys)"

fun includes_s :: "string \<Rightarrow> string \<Rightarrow> bool" where
  "includes_s [] sub = (sub = [])"
| "includes_s (x # xs) sub = (startsWith (x # xs) sub \<or> includes_s xs sub)"

section \<open>Errors and loops\<close>

text \<open>
  The only exception the derivation can raise is a \<open>TypeError\<close>, on the call of a method
  that the receiver does not have. A \<open>forEach\<close> whose callback may throw stops at the
  first exception.
\<close>

datatype js_error = TypeError

fun forEach :: "('a \<Rightarrow> 's \<Rightarrow> js_error + 's) \<Rightarrow> 'a list \<Rightarrow> 's \<Rightarrow> js_error + 's" where
  "forEach f [] s = Inr s"
| "forEach f (x # xs) s = (case f x s of Inl e \<Rightarrow> Inl e | Inr s' \<Rightarrow> forEach f xs s')"

section \<open>Visibility derivation (App.tsx, the useMemo of lines 29-161)\<close>

text \<open>\<open>typeof e === 'object' ? e.id : e\<close>, the resolution of a link endpoint to a plain id.\<close>

fun endpoint_id :: "endpoint \<Rightarrow> string" where
  "endpoint_id (Ref n) = id_n n"
| "endpoint_id (Id s) = s"

text \<open>
  The adjacency list \<open>neighbors\<close> (lines 49-57) is a plain object, \<open>{}\<close>, used as a
  dictionary from ids to arrays. A plain object inherits the properties of
  \<open>Object.prototype\<close>; under each of the names below a lookup yields a function (under
  \<open>__proto__\<close> the prototype object), which is truthy and has neither \<open>push\<close> nor \<open>some\<close>.
\<close>

definition inherited :: "string \<Rightarrow> bool" where
  "inherited k =
     (k \<in> set [''constructor'', ''toString'', ''toLocaleString'', ''valueOf'',
               ''hasOwnProperty'', ''isPrototypeOf'', ''propertyIsEnumerable'', ''__proto__'',
               ''__defineGetter__'', ''__defineSetter__'', ''__lookupGetter__'',
               ''__lookupSetter__''])"

text \<open>
  The object is given by its own properties, a map from ids to arrays. The value of
  \<open>neighbors[k]\<close> is the own array when there is one, the inherited value when \<open>k\<close> is an
  inherited name, and \<open>undefined\<close> otherwise.

  \<open>if (!neighbors[k]) neighbors[k] = []\<close>: the test holds of \<open>undefined\<close> only.
\<close>

type_synonym adjacency = "string \<rightharpoonup> string list"

definition init_key :: "adjacency \<Rightarrow> string \<Rightarrow> adjacency" where
  "init_key nb k = (if nb k = None \<and> \<not> inherited k then nb(k \<mapsto> []) else nb)"

text \<open>
  \<open>neighbors[k].push(v)\<close>: on an own array the value is appended; on an inherited value
  (and on \<open>undefined\<close>) the call throws.
\<close>

definition push_key :: "adjacency \<Rightarrow> string \<Rightarrow> string \<Rightarrow> js_error + adjacency" where
  "push_key nb k v = (case nb k of None \<Rightarrow> Inl TypeError | Some xs \<Rightarrow> Inr (nb(k \<mapsto> xs @ [v])))"

text \<open>One step of the \<open>forEach\<close> over the links (lines 50-57).\<close>

definition add_link :: "GraphLink \<Rightarrow> adjacency \<Rightarrow> js_error + adjacency" where
  "add_link link nb =
     (let s = endpoint_id (source link);
          t = endpoint_id (target link);
          nb2 = init_key (init_key nb s) t
      in case push_key nb2 s t of
           Inl e \<Rightarrow> Inl e
         | Inr nb3 \<Rightarrow> push_key nb3 t s)"

definition neighbors :: "GraphLink list \<Rightarrow> js_error + adjacency" where
  "neighbors ls = forEach add_link ls Map.empty"

text \<open>
  \<open>(neighbors[k] || []).some(nid => expandedNodes.has(nid))\<close> (lines 135-138): on an own
  array, and on the empty array that stands in for \<open>undefined\<close>, the test runs; on an
  inherited value the call of \<open>some\<close> throws.
\<close>

definition isConnectedToExpanded :: "adjacency \<Rightarrow> string set \<Rightarrow> string \<Rightarrow> js_error + bool" where
  "isConnectedToExpanded nb expandedNodes k =
     (case nb k of
        Some myNeighbors \<Rightarrow> Inr (list_ex (\<lambda>nid. nid \<in> expandedNodes) myNeighbors)
      | None \<Rightarrow>
          if inherited k then Inl TypeError
          else Inr (list_ex (\<lambda>nid. nid \<in> expandedNodes) []))"

text \<open>One step of the \<open>forEach\<close> over the nodes in explore mode (lines 124-143).\<close>

definition show_node ::
  "string set \<Rightarrow> string set \<Rightarrow> adjacency \<Rightarrow> GraphNode \<Rightarrow> string set \<Rightarrow> js_error + string set" where
  "show_node activeGroups expandedNodes nb node nodesToShow =
     (if group_n node \<notin> activeGroups then Inr nodesToShow
      else if group_n node = ''center'' then Inr (insert (id_n node) nodesToShow)
      else if group_n node = ''planet'' then Inr (insert (id_n node) nodesToShow)
      else if group_n node = ''satellite'' then
        (case isConnectedToExpanded nb expandedNodes (id_n node) of
           Inl e \<Rightarrow> Inl e
         | Inr hit \<Rightarrow>
             if hit then Inr (insert (id_n node) nodesToShow) else Inr nodesToShow)
      else Inr nodesToShow)"

text \<open>One step of the \<open>forEach\<close> over the links (lines 100-106 and 148-154).\<close>

definition push_link :: "string set \<Rightarrow> GraphLink \<Rightarrow> GraphLink list \<Rightarrow> GraphLink list" where
  "push_link ids link finalLinks =
     (let s = endpoint_id (source link);
          t = endpoint_id (target link)
      in if s \<in> ids \<and> t \<in> ids then finalLinks @ [link] else finalLinks)"

record Derived =
  visibleData :: GraphData
  highlightedNodeIds :: "string set"

text \<open>
  The derivation itself; its first argument is the platform's \<open>toLowerCase\<close>. The result is
  the pair that the useMemo returns, or the exception that leaves it. The adjacency list
  is built before the two modes part. The values \<open>visibleIds\<close>, \<open>queue\<close> and
  \<open>centerNode\<close> of lines 45-46 and 75-78 are never read and are left out.
\<close>

definition visibility ::
  "(string \<Rightarrow> string) \<Rightarrow> GraphData \<Rightarrow> string set \<Rightarrow> string set \<Rightarrow> string \<Rightarrow> js_error + Derived" where
  "visibility toLowerCase masterData activeGroups expandedNodes searchQuery =
     (let filteredNodes = filter (\<lambda>n. group_n n \<in> activeGroups) (nodes masterData);
          filteredNodeIds = set (map id_n filteredNodes)
      in case neighbors (links masterData) of
           Inl e \<Rightarrow> Inl e
         | Inr nb \<Rightarrow>
             (let isSearching = (length searchQuery > 0)
              in if isSearching then
                   (let lowerQuery = toLowerCase searchQuery;
                        matches = filter (\<lambda>n. includes_s (toLowerCase (name n)) lowerQuery \<or>
                                    (case desc n of None \<Rightarrow> False
                                     | Some d \<Rightarrow> includes_s (toLowerCase d) lowerQuery))
                                  (nodes masterData);
                        matchIds = set (map id_n matches);
                        finalNodes = filteredNodes;
                        finalLinks = fold (push_link filteredNodeIds) (links masterData) []
                    in Inr \<lparr>visibleData = \<lparr>nodes = finalNodes, links = finalLinks\<rparr>,
                            highlightedNodeIds = matchIds\<rparr>)
                 else
                   (case forEach (show_node activeGroups expandedNodes nb) (nodes masterData) {} of
                      Inl e \<Rightarrow> Inl e
                    | Inr nodesToShow \<Rightarrow>
                        (let finalNodes = filter (\<lambda>n. id_n n \<in> nodesToShow) (nodes masterData);
                             finalLinks = fold (push_link nodesToShow) (links masterData) []
                         in Inr \<lparr>visibleData = \<lparr>nodes = finalNodes, links = finalLinks\<rparr>,
                                 highlightedNodeIds = {}\<rparr>))))"

section \<open>Application state and node selection (App.tsx, lines 10-24 and 165-181)\<close>

text \<open>
  The state hooks that the derivation and the click handler read or write; the flags
  \<open>isPaused\<close>, \<open>loading\<close> and \<open>showFilters\<close> play no part in either.
\<close>

record AppState =
  masterData :: GraphData
  selectedNode :: "GraphNode option"
  searchQuery :: string
  activeGroups :: "string set"
  expandedNodes :: "string set"

definition handleNodeClick :: "GraphNode \<Rightarrow> AppState \<Rightarrow> AppState" where
  "handleNodeClick node st =
     (let st1 = st\<lparr>selectedNode := Some node\<rparr>
      in if searchQuery st1 = [] then
           st1\<lparr>expandedNodes :=
                 (let prev = expandedNodes st1
                  in if id_n node \<in> prev then prev - {id_n node} else insert (id_n node) prev)\<rparr>
         else st1)"

text \<open>The derived data of a state: the useMemo applied to its four dependencies.\<close>

definition derived :: "(string \<Rightarrow> string) \<Rightarrow> AppState \<Rightarrow> js_error + Derived" where
  "derived toLowerCase st =
     visibility toLowerCase (masterData st) (activeGroups st) (expandedNodes st) (searchQuery st)"

section \<open>The built-in graph (types.ts, DEFAULT\_GRAPH\_DATA)\<close>

definition DEFAULT_GRAPH_DATA :: GraphData where
  "DEFAULT_GRAPH_DATA =
     \<lparr>nodes =
       [\<lparr>id_n = ''AGI_CORE'', name = ''AGI Singularity'', group_n = ''center'', val = 80,
         desc = Some ''The theoretical moment when AI surpasses human intelligence.'', evidence = None, analysis = Some ''Central node of the system.'', color = None\<rparr>,
        \<lparr>id_n = ''Neural_Nets'', name = ''Neural Networks'', group_n = ''planet'', val = 30,
         desc = Some ''Computing systems inspired by biological neural networks.'', evidence = None, analysis = None, color = None\<rparr>,
        \<lparr>id_n = ''Reasoning'', name = ''Reasoning'', group_n = ''planet'', val = 30,
         desc = Some ''The ability to make inferences from data.'', evidence = None, analysis = None, color = None\<rparr>,
        \<lparr>id_n = ''Creativity'', name = ''Creativity'', group_n = ''planet'', val = 30,
         desc = Some ''Generative capabilities in art and text.'', evidence = None, analysis = None, color = None\<rparr>,
        \<lparr>id_n = ''Ethics'', name = ''AI Ethics'', group_n = ''planet'', val = 30,
         desc = Some ''Moral principles governing AI behavior.'', evidence = None, analysis = None, color = None\<rparr>,
        \<lparr>id_n = ''Robotics'', name = ''Embodied AI'', group_n = ''planet'', val = 30,
         desc = Some ''AI operating in the physical world.'', evidence = None, analysis = None, color = None\<rparr>,
        \<lparr>id_n = ''Transformers'', name = ''Transformers'', group_n = ''satellite'', val = 15,
         desc = Some ''Attention-based architecture.'', evidence = None, analysis = None, color = None\<rparr>,
        \<lparr>id_n = ''Backprop'', name = ''Backpropagation'', group_n = ''satellite'', val = 10,
         desc = Some ''Gradient descent optimization.'', evidence = None, analysis = None, color = None\<rparr>,
        \<lparr>id_n = ''CoT'', name = ''Chain of Thought'', group_n = ''satellite'', val = 15,
         desc = Some ''Step-by-step reasoning technique.'', evidence = None, analysis = None, color = None\<rparr>,
        \<lparr>id_n = ''Symbolic'', name = ''Neuro-Symbolic'', group_n = ''satellite'', val = 15,
         desc = Some ''Combining logic with neural nets.'', evidence = None, analysis = None, color = None\<rparr>,
        \<lparr>id_n = ''Diffusion'', name = ''Diffusion Models'', group_n = ''satellite'', val = 15,
         desc = Some ''Image generation technique.'', evidence = None, analysis = None, color = None\<rparr>,
        \<lparr>id_n = ''LLMs'', name = ''Large Language Models'', group_n = ''satellite'', val = 15,
         desc = Some ''Text generation foundations.'', evidence = None, analysis = None, color = None\<rparr>,
        \<lparr>id_n = ''Alignment'', name = ''Alignment'', group_n = ''satellite'', val = 15,
         desc = Some ''Ensuring AI goals match human values.'', evidence = None, analysis = None, color = None\<rparr>,
        \<lparr>id_n = ''Bias'', name = ''Bias Mitigation'', group_n = ''satellite'', val = 15,
         desc = Some ''Reducing unfair prejudice in models.'', evidence = None, analysis = None, color = None\<rparr>,
        \<lparr>id_n = ''Sim2Real'', name = ''Sim2Real'', group_n = ''satellite'', val = 15,
         desc = Some ''Transferring simulation skills to reality.'', evidence = None, analysis = None, color = None\<rparr>,
        \<lparr>id_n = ''Sensors'', name = ''Multimodal Sensors'', group_n = ''satellite'', val = 10,
         desc = Some ''Vision, touch, and audio integration.'', evidence = None, analysis = None, color = None\<rparr>],
      links =
       [\<lparr>source = Id ''AGI_CORE'', target = Id ''Neural_Nets'', color_l = None\<rparr>,
        \<lparr>source = Id ''AGI_CORE'', target = Id ''Reasoning'', color_l = None\<rparr>,
        \<lparr>source = Id ''AGI_CORE'', target = Id ''Creativity'', color_l = None\<rparr>,
        \<lparr>source = Id ''AGI_CORE'', target = Id ''Ethics'', color_l = None\<rparr>,
        \<lparr>source = Id ''AGI_CORE'', target = Id ''Robotics'', color_l = None\<rparr>,
        \<lparr>source = Id ''Neural_Nets'', target = Id ''Transformers'', color_l = None\<rparr>,
        \<lparr>source = Id ''Neural_Nets'', target = Id ''Backprop'', color_l = None\<rparr>,
        \<lparr>source = Id ''Reasoning'', target = Id ''CoT'', color_l = None\<rparr>,
        \<lparr>source = Id ''Reasoning'', target = Id ''Symbolic'', color_l = None\<rparr>,
        \<lparr>source = Id ''Creativity'', target = Id ''Diffusion'', color_l = None\<rparr>,
        \<lparr>source = Id ''Creativity'', target = Id ''LLMs'', color_l = None\<rparr>,
        \<lparr>source = Id ''Ethics'', target = Id ''Alignment'', color_l = None\<rparr>,
        \<lparr>source = Id ''Ethics'', target = Id ''Bias'', color_l = None\<rparr>,
        \<lparr>source = Id ''Robotics'', target = Id ''Sim2Real'', color_l = None\<rparr>,
        \<lparr>source = Id ''Robotics'', target = Id ''Sensors'', color_l = None\<rparr>]\<rparr>"

section \<open>CSV ingestion (utils/csvParser.ts)\<close>

text \<open>
  The model starts from \<open>results.data\<close>, the rows that the CSV library hands to the
  \<open>complete\<close> callback. A row is a \<open>CsvRow\<close>, an object with string values, given as the
  list of its entries in enumeration order; \<open>row[k]\<close> is \<open>map_of row k\<close>, with \<open>None\<close>
  for \<open>undefined\<close>. The column keys outside ASCII are given by their UTF-8 bytes.
\<close>

type_synonym CsvRow = "(string \<times> string) list"

definition key_name :: string where
  "key_name = [CHR 0xE4, CHR 0xB8, CHR 0xBB, CHR 0xE5, CHR 0x88, CHR 0x86, CHR 0xE6, CHR 0x94, CHR 0xAF]"

definition key_desc :: string where
  "key_desc = [CHR 0xE5, CHR 0xAD, CHR 0x90, CHR 0xE8, CHR 0x8A, CHR 0x82, CHR 0xE7, CHR 0x82, CHR 0xB9,
     CHR 0x2F, CHR 0xE7, CHR 0xBB, CHR 0x86, CHR 0xE8, CHR 0x8A, CHR 0x82]"

definition key_evidence :: string where
  "key_evidence = [CHR 0xE5, CHR 0x85, CHR 0xB3, CHR 0xE9, CHR 0x94, CHR 0xAE, CHR 0xE5, CHR 0xBC, CHR 0x95,
     CHR 0xE7, CHR 0x94, CHR 0xA8, CHR 0x2F, CHR 0xE8, CHR 0xAF, CHR 0x81, CHR 0xE6, CHR 0x8D, CHR 0xAE]"

definition key_analysis :: string where
  "key_analysis = [CHR 0xE5, CHR 0x88, CHR 0x86, CHR 0xE6, CHR 0x9E, CHR 0x90, CHR 0x2F, CHR 0xE6, CHR 0xB4,
     CHR 0x9E, CHR 0xE8, CHR 0xA7, CHR 0x81]"

text \<open>\<open>a || b\<close> on values that are a string or \<open>undefined\<close>: \<open>undefined\<close> and \<open>""\<close> are falsy.\<close>

definition or_else :: "string option \<Rightarrow> string option \<Rightarrow> string option" where
  "or_else a b = (case a of None \<Rightarrow> b | Some s \<Rightarrow> if s = [] then b else a)"

text \<open>\<open>a || ""\<close>, the end of the chains that default to the empty text.\<close>

definition or_default :: "string option \<Rightarrow> string \<Rightarrow> string" where
  "or_default a d = (case a of None \<Rightarrow> d | Some s \<Rightarrow> if s = [] then d else s)"

text \<open>\<open>Object.values(row)[0]\<close>\<close>

definition first_value :: "CsvRow \<Rightarrow> string option" where
  "first_value row = (case row of [] \<Rightarrow> None | kv # rest \<Rightarrow> Some (snd kv))"

definition resolve_name :: "CsvRow \<Rightarrow> string option" where
  "resolve_name row =
     or_else (or_else (or_else (or_else (map_of row key_name) (map_of row ''Name''))
       (map_of row ''Node'')) (map_of row ''Title'')) (first_value row)"

definition resolve_desc :: "CsvRow \<Rightarrow> string" where
  "resolve_desc row =
     or_default (or_else (or_else (map_of row key_desc) (map_of row ''Description''))
       (map_of row ''Detail'')) []"

definition resolve_evidence :: "CsvRow \<Rightarrow> string" where
  "resolve_evidence row =
     or_default (or_else (or_else (map_of row key_evidence) (map_of row ''Evidence''))
       (map_of row ''Reference'')) []"

definition resolve_analysis :: "CsvRow \<Rightarrow> string" where
  "resolve_analysis row =
     or_default (or_else (or_else (map_of row key_analysis) (map_of row ''Analysis''))
       (map_of row ''Insight'')) []"

definition centerId :: string where
  "centerId = ''AGI_CORE''"

definition center_node :: GraphNode where
  "center_node =
     \<lparr>id_n = centerId, name = ''AGI Future'', group_n = ''center'', val = 60,
      desc = Some ''The central core of Artificial General Intelligence.'',
      evidence = None, analysis = Some ''System Root'', color = Some ''#f0f9ff''\<rparr>"

text \<open>
  The locals of the callback that the row loop updates, and \<open>sizeCalls\<close>, the number of
  evaluations of \<open>15 + Math.random() * 15\<close> so far. That expression is a parameter of the
  model: \<open>randomSize k\<close> is the number it yields at its evaluation number \<open>k\<close>.
\<close>

record ParseState =
  p_nodes :: "GraphNode list"
  p_links :: "GraphLink list"
  uniqueIds :: "string set"
  sizeCalls :: nat

text \<open>The node and the link that an accepted row pushes (lines 41-56).\<close>

definition row_node :: "real \<Rightarrow> CsvRow \<Rightarrow> string \<Rightarrow> GraphNode" where
  "row_node sz row cleanId =
     \<lparr>id_n = cleanId, name = cleanId, group_n = ''planet'', val = sz,
      desc = Some (resolve_desc row), evidence = Some (resolve_evidence row),
      analysis = Some (resolve_analysis row), color = None\<rparr>"

definition row_link :: "string \<Rightarrow> GraphLink" where
  "row_link cleanId = \<lparr>source = Id centerId, target = Id cleanId, color_l = None\<rparr>"

text \<open>
  One step of the \<open>forEach\<close> over the rows (lines 27-57); its first argument is the
  platform's \<open>trim\<close>. The test \<open>typeof name !== 'string'\<close> holds of \<open>undefined\<close> only, the
  values of a row being strings.
\<close>

definition parse_row ::
  "(string \<Rightarrow> string) \<Rightarrow> (nat \<Rightarrow> real) \<Rightarrow> CsvRow \<Rightarrow> ParseState \<Rightarrow> ParseState" where
  "parse_row trim randomSize row st =
     (case resolve_name row of
        None \<Rightarrow> st
      | Some nm \<Rightarrow>
          if nm = [] then st
          else
            (let cleanId = trim nm
             in if cleanId = [] \<or> cleanId \<in> uniqueIds st then st
                else
                  \<lparr>p_nodes = p_nodes st @ [row_node (randomSize (sizeCalls st)) row cleanId],
                   p_links = p_links st @ [row_link cleanId],
                   uniqueIds = insert cleanId (uniqueIds st),
                   sizeCalls = Suc (sizeCalls st)\<rparr>))"

definition parseCsvToGraph ::
  "(string \<Rightarrow> string) \<Rightarrow> (nat \<Rightarrow> real) \<Rightarrow> CsvRow list \<Rightarrow> GraphData" where
  "parseCsvToGraph trim randomSize rows =
     (let st0 = \<lparr>p_nodes = [center_node], p_links = [], uniqueIds = {centerId}, sizeCalls = 0\<rparr>;
          st = fold (parse_row trim randomSize) rows st0
      in \<lparr>nodes = p_nodes st, links = p_links st\<rparr>)"

section \<open>The rules in the words of the specification\<close>

text \<open>
  The plain id that a link endpoint stands for: the id itself, or the id of the node that
  a renderer has written in its place.
\<close>

definition plain_id :: "endpoint \<Rightarrow> string" where
  "plain_id e = (case e of Id s \<Rightarrow> s | Ref n \<Rightarrow> id_n n)"

text \<open>
  The undirected neighbours of an id: the other end of every link that has the id at
  one end.
\<close>

definition undirected_neighbors :: "GraphLink list \<Rightarrow> string \<Rightarrow> string set" where
  "undirected_neighbors ls x =
     {y. \<exists>l \<in> set ls.
           (plain_id (source l) = x \<and> plain_id (target l) = y) \<or>
           (plain_id (target l) = x \<and> plain_id (source l) = y)}"

text \<open>
  The tier rule of explore mode: the group is active, and the node is of the center or
  planet tier, or a satellite with at least one neighbour in the expansion set.
\<close>

definition tier_visible :: "GraphData \<Rightarrow> string set \<Rightarrow> string set \<Rightarrow> GraphNode \<Rightarrow> bool" where
  "tier_visible g ag ex n =
     (group_n n \<in> ag \<and>
      (group_n n = ''center'' \<or> group_n n = ''planet'' \<or>
       (group_n n = ''satellite'' \<and> (\<exists>y \<in> undirected_neighbors (links g) (id_n n). y \<in> ex))))"

text \<open>The ids that the tier rule lets through.\<close>

definition tier_ids :: "GraphData \<Rightarrow> string set \<Rightarrow> string set \<Rightarrow> string set" where
  "tier_ids g ag ex = id_n ` {m \<in> set (nodes g). tier_visible g ag ex m}"

text \<open>Both ends of a link are ids of the given nodes.\<close>

definition both_ends_in :: "GraphNode list \<Rightarrow> GraphLink \<Rightarrow> bool" where
  "both_ends_in ns l =
     (plain_id (source l) \<in> id_n ` set ns \<and> plain_id (target l) \<in> id_n ` set ns)"

text \<open>
  A text contains the query as a substring, letter case ignored: after both have been
  put in lower case, the query is a run of consecutive characters of the text.
\<close>

definition contains_ci :: "(string \<Rightarrow> string) \<Rightarrow> string \<Rightarrow> string \<Rightarrow> bool" where
  "contains_ci lower s q = (\<exists>ps ss. lower s = ps @ lower q @ ss)"

definition matches_query :: "(string \<Rightarrow> string) \<Rightarrow> string \<Rightarrow> GraphNode \<Rightarrow> bool" where
  "matches_query lower q n =
     (contains_ci lower (name n) q \<or>
      (case desc n of None \<Rightarrow> False | Some d \<Rightarrow> contains_ci lower d q))"

text \<open>
  The trimmed name a row resolves to: \<open>None\<close> when no usable name resolves, otherwise the
  resolved name, trimmed (which may be empty).
\<close>

definition clean_name :: "(string \<Rightarrow> string) \<Rightarrow> CsvRow \<Rightarrow> string option" where
  "clean_name trim row =
     (case resolve_name row of
        None \<Rightarrow> None
      | Some nm \<Rightarrow> if nm = [] then None else Some (trim nm))"

section \<open>The adjacency list as a dictionary\<close>

text \<open>
  The graphs on which the use of a plain object as a dictionary does no harm: no end of a
  link is an inherited property name, and (for explore mode) no satellite of an active
  group has one as its id. On exactly these graphs the derivation returns
  (\<open>visibility_throws_iff\<close> below).
\<close>

definition plain_links :: "GraphLink list \<Rightarrow> bool" where
  "plain_links ls =
     list_all (\<lambda>l. \<not> inherited (plain_id (source l)) \<and> \<not> inherited (plain_id (target l))) ls"

definition plain_satellites :: "string set \<Rightarrow> GraphNode list \<Rightarrow> bool" where
  "plain_satellites ag ns =
     list_all (\<lambda>n. \<not> (group_n n \<in> ag \<and> group_n n = ''satellite'' \<and> inherited (id_n n))) ns"

text \<open>
  The array held under a key of the adjacency list, empty when there is none, and the
  adjacency lists that have no own property under an inherited name.
\<close>

definition array_at :: "adjacency \<Rightarrow> string \<Rightarrow> string list" where
  "array_at nb k = (case nb k of None \<Rightarrow> [] | Some xs \<Rightarrow> xs)"

definition own_plain :: "adjacency \<Rightarrow> bool" where
  "own_plain nb = (\<forall>k. inherited k \<longrightarrow> nb k = None)"

section \<open>Concrete platform functions, graphs, states and rows\<close>

text \<open>
  On ASCII text \<open>toLowerCase\<close> maps the letters \<open>A\<close> to \<open>Z\<close> to \<open>a\<close> to \<open>z\<close> and \<open>trim\<close> removes
  tab, line feed, vertical tab, form feed, carriage return and space from both ends.
  The two functions below do that; they stand for the built-ins in the examples, all of
  which are ASCII text.
\<close>

definition ascii_lower_char :: "char \<Rightarrow> char" where
  "ascii_lower_char c =
     (case map_of (zip ''ABCDEFGHIJKLMNOPQRSTUVWXYZ'' ''abcdefghijklmnopqrstuvwxyz'') c of
        None \<Rightarrow> c
      | Some l \<Rightarrow> l)"

definition ascii_lower :: "string \<Rightarrow> string" where
  "ascii_lower s = map ascii_lower_char s"

definition ascii_space :: "char \<Rightarrow> bool" where
  "ascii_space c = (c \<in> set [CHR 0x09, CHR 0x0A, CHR 0x0B, CHR 0x0C, CHR 0x0D, CHR 0x20])"

definition ascii_trim :: "string \<Rightarrow> string" where
  "ascii_trim s = rev (dropWhile ascii_space (rev (dropWhile ascii_space s)))"

definition fixed_size :: "nat \<Rightarrow> real" where
  "fixed_size k = 20"

definition all_groups :: "string set" where
  "all_groups = {''center'', ''planet'', ''satellite''}"

definition plain_node :: "string \<Rightarrow> string \<Rightarrow> string \<Rightarrow> GraphNode" where
  "plain_node i nm g =
     \<lparr>id_n = i, name = nm, group_n = g, val = 1,
      desc = None, evidence = None, analysis = None, color = None\<rparr>"

definition plain_link :: "endpoint \<Rightarrow> endpoint \<Rightarrow> GraphLink" where
  "plain_link s t = \<lparr>source = s, target = t, color_l = None\<rparr>"

text \<open>
  A satellite under two planets; the link from the second planet holds the satellite as
  a node written in place.
\<close>

definition two_planet_graph :: GraphData where
  "two_planet_graph =
     \<lparr>nodes = [plain_node ''AGI_CORE'' ''Core'' ''center'', plain_node ''P1'' ''One'' ''planet'',
               plain_node ''P2'' ''Two'' ''planet'', plain_node ''S'' ''Moon'' ''satellite''],
      links = [plain_link (Id ''AGI_CORE'') (Id ''P1''), plain_link (Id ''AGI_CORE'') (Id ''P2''),
               plain_link (Id ''P1'') (Id ''S''),
               plain_link (Id ''P2'') (Ref (plain_node ''S'' ''Moon'' ''satellite''))]\<rparr>"

text \<open>Graphs without a node of the reserved center id.\<close>

definition lone_planet_graph :: GraphData where
  "lone_planet_graph = \<lparr>nodes = [plain_node ''P'' ''Planet'' ''planet''], links = []\<rparr>"

definition headless_graph :: GraphData where
  "headless_graph =
     \<lparr>nodes = [plain_node ''P'' ''Planet'' ''planet'', plain_node ''S'' ''Moon'' ''satellite''],
      links = [plain_link (Id ''AGI_CORE'') (Id ''P''), plain_link (Id ''P'') (Id ''S'')]\<rparr>"

definition orphan_graph :: GraphData where
  "orphan_graph =
     \<lparr>nodes = [plain_node ''S'' ''Moon'' ''satellite''],
      links = [plain_link (Id ''Gone'') (Id ''S'')]\<rparr>"

text \<open>The state at startup (lines 10-24), and the same state during a search.\<close>

definition initial_state :: AppState where
  "initial_state =
     \<lparr>masterData = DEFAULT_GRAPH_DATA, selectedNode = None, searchQuery = [],
      activeGroups = all_groups, expandedNodes = {''AGI_CORE''}\<rparr>"

definition searching_state :: AppState where
  "searching_state = initial_state\<lparr>searchQuery := ''neural''\<rparr>"

text \<open>Rows of an import: a name given twice, a blank name and an absent name.\<close>

definition foo_rows :: "CsvRow list" where
  "foo_rows =
     [[(''Name'', ''Foo''), (''Description'', ''Bar'')],
      [(''Name'', ''   '')],
      [(''Name'', '' Foo ''), (''Description'', ''Other'')],
      [(''Name'', '''')],
      [(''Name'', ''Baz'')]]"

text \<open>Rows whose name is the reserved id, or the display name of the center node.\<close>

definition core_rows :: "CsvRow list" where
  "core_rows = [[(''Name'', ''AGI_CORE'')], [(''Name'', ''AGI_CORE ''), (''Description'', ''again'')]]"

definition future_rows :: "CsvRow list" where
  "future_rows = [[(''Name'', ''AGI Future'')], [(''Name'', ''AGI Future'')]]"

text \<open>
  The graph that the import of the file \<open>Name\<close>, \<open>constructor\<close> (a header line and one data
  line) produces: the center, one planet of id \<open>constructor\<close>, and the link between them.
\<close>

definition ctor_graph :: GraphData where
  "ctor_graph = parseCsvToGraph ascii_trim fixed_size [[(''Name'', ''constructor'')]]"

text \<open>The same import with the name \<open>Builder\<close> in the data line.\<close>

definition builder_graph :: GraphData where
  "builder_graph = parseCsvToGraph ascii_trim fixed_size [[(''Name'', ''Builder'')]]"



section \<open>Properties of the adjacency list\<close>

lemma endpoint_id_plain: "endpoint_id e = plain_id e"
  by (cases e) (simp_all add: plain_id_def)

lemma fold_push_link:
  "fold (push_link ids) ls acc =
     acc @ filter (\<lambda>l. plain_id (source l) \<in> ids \<and> plain_id (target l) \<in> ids) ls"
  by (induction ls arbitrary: acc) (simp_all add: push_link_def endpoint_id_plain)

lemma own_plain_empty: "own_plain Map.empty"
  by (simp add: own_plain_def)

lemma own_plain_init_key: "own_plain nb \<Longrightarrow> own_plain (init_key nb k)"
  by (simp add: own_plain_def init_key_def)

lemma array_at_init_key: "array_at (init_key nb k) x = array_at nb x"
  by (simp add: init_key_def array_at_def)

lemma init_key_Some: "\<not> inherited k \<Longrightarrow> \<exists>xs. init_key nb k k = Some xs"
  by (cases "nb k") (simp_all add: init_key_def)

lemma init_key_keeps: "nb x = Some xs \<Longrightarrow> init_key nb k x = Some xs"
  by (auto simp: init_key_def)

lemma init_key_None: "own_plain nb \<Longrightarrow> inherited x \<Longrightarrow> init_key nb k x = None"
  using own_plain_init_key [of nb k] by (simp add: own_plain_def)

lemma push_key_Some: "nb k = Some xs \<Longrightarrow> push_key nb k v = Inr (nb(k \<mapsto> xs @ [v]))"
  by (simp add: push_key_def)

lemma push_key_None: "nb k = None \<Longrightarrow> push_key nb k v = Inl TypeError"
  by (simp add: push_key_def)

lemma array_at_upd: "array_at (nb(k \<mapsto> ys)) x = (if x = k then ys else array_at nb x)"
  by (simp add: array_at_def)

lemma undirected_neighbors_single:
  "undirected_neighbors [l] x =
     (if x = plain_id (source l) then {plain_id (target l)} else {}) \<union>
     (if x = plain_id (target l) then {plain_id (source l)} else {})"
  by (auto simp: undirected_neighbors_def)

lemma add_link_plain:
  assumes w: "own_plain nb"
    and s: "\<not> inherited (plain_id (source l))" and t: "\<not> inherited (plain_id (target l))"
  shows "\<exists>nb'. add_link l nb = Inr nb' \<and> own_plain nb' \<and>
           (\<forall>x. set (array_at nb' x) = set (array_at nb x) \<union> undirected_neighbors [l] x)"
proof -
  define a where "a = plain_id (source l)"
  define b where "b = plain_id (target l)"
  define nb2 where "nb2 = init_key (init_key nb a) b"
  have w2: "own_plain nb2"
    unfolding nb2_def by (intro own_plain_init_key w)
  obtain xs where xs: "nb2 a = Some xs"
    using init_key_Some [of a nb] init_key_keeps [of "init_key nb a" a _ b] s
    by (auto simp: nb2_def a_def)
  define nb3 where "nb3 = nb2(a \<mapsto> xs @ [b])"
  have p1: "push_key nb2 a b = Inr nb3"
    using xs by (simp add: push_key_Some nb3_def)
  obtain ys where ys: "nb3 b = Some ys"
  proof (cases "b = a")
    case True
    then show ?thesis using that by (simp add: nb3_def)
  next
    case False
    from init_key_Some [of b "init_key nb a"] t
    obtain zs where "nb2 b = Some zs" by (auto simp: nb2_def b_def)
    with False show ?thesis using that by (simp add: nb3_def)
  qed
  define nb4 where "nb4 = nb3(b \<mapsto> ys @ [a])"
  have p2: "push_key nb3 b a = Inr nb4"
    using ys by (simp add: push_key_Some nb4_def)
  have e: "add_link l nb = Inr nb4"
    by (simp add: add_link_def endpoint_id_plain Let_def a_def [symmetric] b_def [symmetric]
        nb2_def [symmetric] p1 p2)
  have w4: "own_plain nb4"
    using w2 s t by (auto simp: own_plain_def nb4_def nb3_def a_def b_def)
  have xs': "xs = array_at nb2 a" using xs by (simp add: array_at_def)
  have ys': "ys = array_at nb3 b" using ys by (simp add: array_at_def)
  have a2: "array_at nb2 x = array_at nb x" for x
    by (simp add: nb2_def array_at_init_key)
  have a3: "set (array_at nb3 x) = set (array_at nb x) \<union> (if x = a then {b} else {})" for x
    by (simp add: nb3_def array_at_upd xs' a2)
  have a4: "set (array_at nb4 x) =
      set (array_at nb x) \<union> (if x = a then {b} else {}) \<union> (if x = b then {a} else {})" for x
    using a3 [of x] a3 [of b] by (auto simp: nb4_def array_at_upd ys')
  have "\<forall>x. set (array_at nb4 x) = set (array_at nb x) \<union> undirected_neighbors [l] x"
    using a4 by (simp add: undirected_neighbors_single a_def b_def Un_assoc)
  with e w4 show ?thesis by blast
qed

lemma add_link_inherited:
  assumes w: "own_plain nb"
    and i: "inherited (plain_id (source l)) \<or> inherited (plain_id (target l))"
  shows "add_link l nb = Inl TypeError"
proof -
  define a where "a = plain_id (source l)"
  define b where "b = plain_id (target l)"
  define nb2 where "nb2 = init_key (init_key nb a) b"
  have w2: "own_plain nb2"
    unfolding nb2_def by (intro own_plain_init_key w)
  have u: "add_link l nb =
      (case push_key nb2 a b of Inl e \<Rightarrow> Inl e | Inr nb3 \<Rightarrow> push_key nb3 b a)"
    unfolding a_def b_def nb2_def by (simp add: add_link_def endpoint_id_plain Let_def)
  show ?thesis
  proof (cases "inherited a")
    case True
    with w2 have "nb2 a = None" by (simp add: own_plain_def)
    then show ?thesis by (simp add: u push_key_None)
  next
    case False
    with i have ib: "inherited b" by (simp add: a_def b_def)
    with w2 have n: "nb2 b = None" by (simp add: own_plain_def)
    from False ib have ab: "a \<noteq> b" by auto
    show ?thesis
    proof (cases "nb2 a")
      case None
      then show ?thesis by (simp add: u push_key_None)
    next
      case (Some xs)
      then have "push_key nb2 a b = Inr (nb2(a \<mapsto> xs @ [b]))" by (rule push_key_Some)
      moreover have "(nb2(a \<mapsto> xs @ [b])) b = None" using n ab by simp
      ultimately show ?thesis by (simp add: u push_key_None)
    qed
  qed
qed

lemma undirected_neighbors_Cons:
  "undirected_neighbors (l # ls) x = undirected_neighbors [l] x \<union> undirected_neighbors ls x"
  by (auto simp: undirected_neighbors_def)

lemma forEach_add_link_plain:
  assumes "own_plain nb" and "plain_links ls"
  shows "\<exists>nb'. forEach add_link ls nb = Inr nb' \<and> own_plain nb' \<and>
           (\<forall>x. set (array_at nb' x) = set (array_at nb x) \<union> undirected_neighbors ls x)"
  using assms
proof (induction ls arbitrary: nb)
  case Nil
  then show ?case by (simp add: undirected_neighbors_def)
next
  case (Cons l ls)
  from Cons.prems(2) have s: "\<not> inherited (plain_id (source l))"
    and t: "\<not> inherited (plain_id (target l))" and r: "plain_links ls"
    by (simp_all add: plain_links_def)
  from add_link_plain [OF Cons.prems(1) s t]
  obtain nb1 where n1: "add_link l nb = Inr nb1" "own_plain nb1"
    "\<forall>x. set (array_at nb1 x) = set (array_at nb x) \<union> undirected_neighbors [l] x"
    by blast
  from Cons.IH [OF n1(2) r]
  obtain nb2 where n2: "forEach add_link ls nb1 = Inr nb2" "own_plain nb2"
    "\<forall>x. set (array_at nb2 x) = set (array_at nb1 x) \<union> undirected_neighbors ls x"
    by blast
  have "forEach add_link (l # ls) nb = Inr nb2"
    by (simp add: n1(1) n2(1))
  moreover have "\<forall>x. set (array_at nb2 x) = set (array_at nb x) \<union> undirected_neighbors (l # ls) x"
    using n1(3) n2(3) undirected_neighbors_Cons [of l ls] by (simp add: Un_assoc)
  ultimately show ?case using n2(2) by blast
qed

lemma forEach_add_link_inherited:
  assumes "own_plain nb" and "\<not> plain_links ls"
  shows "forEach add_link ls nb = Inl TypeError"
  using assms
proof (induction ls arbitrary: nb)
  case Nil
  then show ?case by (simp add: plain_links_def)
next
  case (Cons l ls)
  show ?case
  proof (cases "inherited (plain_id (source l)) \<or> inherited (plain_id (target l))")
    case True
    from add_link_inherited [OF Cons.prems(1) True] show ?thesis by simp
  next
    case False
    then have s: "\<not> inherited (plain_id (source l))" and t: "\<not> inherited (plain_id (target l))"
      by simp_all
    from add_link_plain [OF Cons.prems(1) s t]
    obtain nb1 where n1: "add_link l nb = Inr nb1" "own_plain nb1" by blast
    from False Cons.prems(2) have "\<not> plain_links ls" by (simp add: plain_links_def)
    from Cons.IH [OF n1(2) this] show ?thesis by (simp add: n1(1))
  qed
qed

lemma neighbors_plain:
  assumes "plain_links ls"
  shows "\<exists>nb. neighbors ls = Inr nb \<and> own_plain nb \<and>
           (\<forall>x. set (array_at nb x) = undirected_neighbors ls x)"
  using forEach_add_link_plain [OF own_plain_empty assms]
  by (simp add: neighbors_def array_at_def)

lemma neighbors_inherited: "\<not> plain_links ls \<Longrightarrow> neighbors ls = Inl TypeError"
  using forEach_add_link_inherited [OF own_plain_empty] by (simp add: neighbors_def)

section \<open>Properties of the derivation\<close>

lemma isConnectedToExpanded_own_plain:
  assumes "own_plain nb"
  shows "isConnectedToExpanded nb ex k =
     (if inherited k then Inl TypeError else Inr (\<exists>y \<in> set (array_at nb k). y \<in> ex))"
proof (cases "nb k")
  case None
  then show ?thesis
    by (simp add: isConnectedToExpanded_def array_at_def)
next
  case (Some xs)
  with assms have "\<not> inherited k" by (auto simp: own_plain_def)
  with Some show ?thesis
    by (simp add: isConnectedToExpanded_def array_at_def list_ex_iff)
qed

lemma show_node_step:
  assumes "own_plain nb"
  shows "show_node ag ex nb n acc =
     (if group_n n \<in> ag \<and> group_n n = ''satellite'' \<and> inherited (id_n n) then Inl TypeError
      else Inr (if group_n n \<in> ag \<and>
                    (group_n n = ''center'' \<or> group_n n = ''planet'' \<or>
                     (group_n n = ''satellite'' \<and> (\<exists>y \<in> set (array_at nb (id_n n)). y \<in> ex)))
                then insert (id_n n) acc else acc))"
  by (simp add: show_node_def isConnectedToExpanded_own_plain [OF assms])

lemma forEach_show_node_plain:
  assumes "own_plain nb" and "plain_satellites ag ns"
  shows "forEach (show_node ag ex nb) ns acc =
     Inr (acc \<union> id_n ` {n \<in> set ns. group_n n \<in> ag \<and>
        (group_n n = ''center'' \<or> group_n n = ''planet'' \<or>
         (group_n n = ''satellite'' \<and> (\<exists>y \<in> set (array_at nb (id_n n)). y \<in> ex)))})"
  using assms(2)
proof (induction ns arbitrary: acc)
  case Nil
  show ?case by simp
next
  case (Cons n ns)
  let ?P = "\<lambda>n. group_n n \<in> ag \<and>
        (group_n n = ''center'' \<or> group_n n = ''planet'' \<or>
         (group_n n = ''satellite'' \<and> (\<exists>y \<in> set (array_at nb (id_n n)). y \<in> ex)))"
  from Cons.prems have h: "\<not> (group_n n \<in> ag \<and> group_n n = ''satellite'' \<and> inherited (id_n n))"
    and r: "plain_satellites ag ns"
    by (simp_all add: plain_satellites_def)
  have s: "show_node ag ex nb n acc = Inr (if ?P n then insert (id_n n) acc else acc)"
    unfolding show_node_step [OF assms(1), of ag ex n acc] using h by (rule if_not_P)
  have "forEach (show_node ag ex nb) (n # ns) acc =
          forEach (show_node ag ex nb) ns (if ?P n then insert (id_n n) acc else acc)"
    by (simp only: forEach.simps s sum.case)
  also have "\<dots> = Inr ((if ?P n then insert (id_n n) acc else acc) \<union> id_n ` {n \<in> set ns. ?P n})"
    by (rule Cons.IH [OF r])
  also have "(if ?P n then insert (id_n n) acc else acc) \<union> id_n ` {n \<in> set ns. ?P n} =
             acc \<union> id_n ` {m \<in> set (n # ns). ?P m}"
    by auto
  finally show ?case .
qed

lemma forEach_show_node_inherited:
  assumes "own_plain nb" and "\<not> plain_satellites ag ns"
  shows "forEach (show_node ag ex nb) ns acc = Inl TypeError"
  using assms(2)
proof (induction ns arbitrary: acc)
  case Nil
  then show ?case by (simp add: plain_satellites_def)
next
  case (Cons n ns)
  show ?case
  proof (cases "group_n n \<in> ag \<and> group_n n = ''satellite'' \<and> inherited (id_n n)")
    case True
    then have "show_node ag ex nb n acc = Inl TypeError"
      unfolding show_node_step [OF assms(1), of ag ex n acc] by (rule if_P)
    then show ?thesis by (simp only: forEach.simps sum.case)
  next
    case False
    with Cons.prems have r: "\<not> plain_satellites ag ns" by (auto simp: plain_satellites_def)
    obtain acc' where "show_node ag ex nb n acc = Inr acc'"
      unfolding show_node_step [OF assms(1), of ag ex n acc] if_not_P [OF False] by blast
    then show ?thesis using Cons.IH [OF r, of acc'] by (simp only: forEach.simps sum.case)
  qed
qed

lemma nodesToShow_tier_ids:
  assumes "\<forall>x. set (array_at nb x) = undirected_neighbors (links g) x"
  shows "{} \<union> id_n ` {n \<in> set (nodes g). group_n n \<in> ag \<and>
        (group_n n = ''center'' \<or> group_n n = ''planet'' \<or>
         (group_n n = ''satellite'' \<and> (\<exists>y \<in> set (array_at nb (id_n n)). y \<in> ex)))} = tier_ids g ag ex"
  by (simp add: tier_ids_def tier_visible_def assms)

lemma explore_result:
  "visibility lower g ag ex [] =
     (if plain_links (links g) \<and> plain_satellites ag (nodes g) then
        Inr \<lparr>visibleData =
               \<lparr>nodes = filter (\<lambda>n. id_n n \<in> tier_ids g ag ex) (nodes g),
                links = filter (\<lambda>l. plain_id (source l) \<in> tier_ids g ag ex \<and>
                                     plain_id (target l) \<in> tier_ids g ag ex) (links g)\<rparr>,
             highlightedNodeIds = {}\<rparr>
      else Inl TypeError)"
proof (cases "plain_links (links g)")
  case False
  then show ?thesis by (simp add: visibility_def neighbors_inherited)
next
  case True
  from neighbors_plain [OF True]
  obtain nb where nb: "neighbors (links g) = Inr nb" "own_plain nb"
    "\<forall>x. set (array_at nb x) = undirected_neighbors (links g) x"
    by blast
  show ?thesis
  proof (cases "plain_satellites ag (nodes g)")
    case False
    with True show ?thesis
      by (simp add: visibility_def nb(1) forEach_show_node_inherited [OF nb(2)])
  next
    case sat: True
    have f: "forEach (show_node ag ex nb) (nodes g) {} = Inr (tier_ids g ag ex)"
      unfolding forEach_show_node_plain [OF nb(2) sat] nodesToShow_tier_ids [OF nb(3)] ..
    show ?thesis
      using True sat by (simp add: visibility_def nb(1) f fold_push_link)
  qed
qed

lemma startsWith_iff: "startsWith s sub \<longleftrightarrow> (\<exists>ss. s = sub @ ss)"
  by (induction s sub rule: startsWith.induct) auto

lemma includes_s_iff: "includes_s s sub \<longleftrightarrow> (\<exists>ps ss. s = ps @ sub @ ss)"
proof (induction s)
  case Nil
  show ?case by auto
next
  case (Cons x xs)
  show ?case
  proof
    assume "includes_s (x # xs) sub"
    then consider "startsWith (x # xs) sub" | "includes_s xs sub" by auto
    then show "\<exists>ps ss. x # xs = ps @ sub @ ss"
    proof cases
      case 1
      then obtain ss where "x # xs = sub @ ss" using startsWith_iff by blast
      then have "x # xs = [] @ sub @ ss" by simp
      then show ?thesis by blast
    next
      case 2
      then obtain ps ss where "xs = ps @ sub @ ss" using Cons.IH by blast
      then have "x # xs = (x # ps) @ sub @ ss" by simp
      then show ?thesis by blast
    qed
  next
    assume "\<exists>ps ss. x # xs = ps @ sub @ ss"
    then obtain ps ss where e: "x # xs = ps @ sub @ ss" by blast
    show "includes_s (x # xs) sub"
    proof (cases ps)
      case Nil
      with e have "startsWith (x # xs) sub" using startsWith_iff by auto
      then show ?thesis by simp
    next
      case (Cons p ps')
      with e have "xs = ps' @ sub @ ss" by simp
      then have "includes_s xs sub" using Cons.IH by blast
      then show ?thesis by simp
    qed
  qed
qed

lemma includes_s_lower: "includes_s (lower s) (lower q) = contains_ci lower s q"
  by (simp add: includes_s_iff contains_ci_def)

lemma search_result:
  assumes "q \<noteq> []"
  shows "visibility lower g ag ex q =
     (if plain_links (links g) then
        Inr \<lparr>visibleData =
               \<lparr>nodes = filter (\<lambda>n. group_n n \<in> ag) (nodes g),
                links = filter (\<lambda>l. plain_id (source l) \<in> id_n ` {n \<in> set (nodes g). group_n n \<in> ag} \<and>
                                     plain_id (target l) \<in> id_n ` {n \<in> set (nodes g). group_n n \<in> ag})
                          (links g)\<rparr>,
             highlightedNodeIds = id_n ` {n \<in> set (nodes g). matches_query lower q n}\<rparr>
      else Inl TypeError)"
proof (cases "plain_links (links g)")
  case False
  then show ?thesis by (simp add: visibility_def neighbors_inherited)
next
  case True
  from neighbors_plain [OF True]
  obtain nb where nb: "neighbors (links g) = Inr nb" by blast
  show ?thesis
    using True assms
    by (simp add: visibility_def nb fold_push_link includes_s_lower matches_query_def
        cong: option.case_cong)
qed

lemma explore_visible_ids:
  "id_n ` set (filter (\<lambda>n. id_n n \<in> tier_ids g ag ex) (nodes g)) = tier_ids g ag ex"
  by (auto simp: tier_ids_def)

lemma distinct_id_eq:
  "distinct (map id_n ns) \<Longrightarrow> n \<in> set ns \<Longrightarrow> m \<in> set ns \<Longrightarrow> id_n m = id_n n \<Longrightarrow> m = n"
  by (meson distinct_map inj_on_def)

lemma filter_tier_ids:
  assumes "distinct (map id_n (nodes g))"
  shows "filter (\<lambda>n. id_n n \<in> tier_ids g ag ex) (nodes g) = filter (tier_visible g ag ex) (nodes g)"
proof (rule filter_cong [OF refl])
  fix n assume "n \<in> set (nodes g)"
  then show "(id_n n \<in> tier_ids g ag ex) = tier_visible g ag ex n"
    using distinct_id_eq [OF assms] by (auto simp: tier_ids_def)
qed

lemma explore_plain:
  assumes "plain_links (links g)" and "plain_satellites ag (nodes g)"
  shows "visibility lower g ag ex [] =
        Inr \<lparr>visibleData =
               \<lparr>nodes = filter (\<lambda>n. id_n n \<in> tier_ids g ag ex) (nodes g),
                links = filter (\<lambda>l. plain_id (source l) \<in> tier_ids g ag ex \<and>
                                     plain_id (target l) \<in> tier_ids g ag ex) (links g)\<rparr>,
             highlightedNodeIds = {}\<rparr>"
  using assms by (simp add: explore_result)

lemma both_ends_in_tier:
  "both_ends_in (filter (\<lambda>n. id_n n \<in> tier_ids g ag ex) (nodes g)) =
     (\<lambda>l. plain_id (source l) \<in> tier_ids g ag ex \<and> plain_id (target l) \<in> tier_ids g ag ex)"
  by (rule ext) (simp only: both_ends_in_def explore_visible_ids)

lemma explore_returns:
  assumes "visibility lower g ag ex [] = Inr r"
  shows "nodes (visibleData r) = filter (\<lambda>n. id_n n \<in> tier_ids g ag ex) (nodes g) \<and>
         links (visibleData r) = filter (both_ends_in (nodes (visibleData r))) (links g) \<and>
         highlightedNodeIds r = {}"
proof -
  from assms have "r = \<lparr>visibleData =
               \<lparr>nodes = filter (\<lambda>n. id_n n \<in> tier_ids g ag ex) (nodes g),
                links = filter (\<lambda>l. plain_id (source l) \<in> tier_ids g ag ex \<and>
                                     plain_id (target l) \<in> tier_ids g ag ex) (links g)\<rparr>,
             highlightedNodeIds = {}\<rparr>"
    by (simp add: explore_result split: if_splits)
  then show ?thesis
    by (simp add: both_ends_in_tier)
qed

lemma search_plain:
  assumes "q \<noteq> []" and "plain_links (links g)"
  shows "visibility lower g ag ex q =
        Inr \<lparr>visibleData =
               \<lparr>nodes = filter (\<lambda>n. group_n n \<in> ag) (nodes g),
                links = filter (\<lambda>l. plain_id (source l) \<in> id_n ` {n \<in> set (nodes g). group_n n \<in> ag} \<and>
                                     plain_id (target l) \<in> id_n ` {n \<in> set (nodes g). group_n n \<in> ag})
                          (links g)\<rparr>,
             highlightedNodeIds = id_n ` {n \<in> set (nodes g). matches_query lower q n}\<rparr>"
  using assms by (simp add: search_result)

lemma visibility_throws_iff:
  "visibility lower g ag ex q = Inl TypeError \<longleftrightarrow>
     \<not> plain_links (links g) \<or> (q = [] \<and> \<not> plain_satellites ag (nodes g))"
proof (cases "q = []")
  case True
  show ?thesis unfolding True by (simp add: explore_result)
next
  case False
  then show ?thesis by (simp add: search_result)
qed

lemma search_returns:
  assumes "q \<noteq> []" and "visibility lower g ag ex q = Inr r"
  shows "nodes (visibleData r) = filter (\<lambda>n. group_n n \<in> ag) (nodes g) \<and>
         links (visibleData r) = filter (both_ends_in (nodes (visibleData r))) (links g) \<and>
         highlightedNodeIds r = id_n ` {n \<in> set (nodes g). matches_query lower q n}"
proof -
  from assms have "r = \<lparr>visibleData =
               \<lparr>nodes = filter (\<lambda>n. group_n n \<in> ag) (nodes g),
                links = filter (\<lambda>l. plain_id (source l) \<in> id_n ` {n \<in> set (nodes g). group_n n \<in> ag} \<and>
                                     plain_id (target l) \<in> id_n ` {n \<in> set (nodes g). group_n n \<in> ag})
                          (links g)\<rparr>,
             highlightedNodeIds = id_n ` {n \<in> set (nodes g). matches_query lower q n}\<rparr>"
    by (simp add: search_result split: if_splits)
  moreover have "both_ends_in (filter (\<lambda>n. group_n n \<in> ag) (nodes g)) =
     (\<lambda>l. plain_id (source l) \<in> id_n ` {n \<in> set (nodes g). group_n n \<in> ag} \<and>
          plain_id (target l) \<in> id_n ` {n \<in> set (nodes g). group_n n \<in> ag})"
    by (rule ext) (simp add: both_ends_in_def)
  ultimately show ?thesis by simp
qed

lemma explore_visible_iff_plain:
  assumes "distinct (map id_n (nodes g))"
    and "plain_links (links g)" and "plain_satellites ag (nodes g)"
  shows "\<exists>r. visibility lower g ag ex '''' = Inr r \<and>
           set (nodes (visibleData r)) = {n \<in> set (nodes g). tier_visible g ag ex n} \<and>
           highlightedNodeIds r = {}"
proof -
  from explore_plain [OF assms(2,3)]
  obtain r where r: "visibility lower g ag ex [] = Inr r" by blast
  from explore_returns [OF r] filter_tier_ids [OF assms(1)]
  have "set (nodes (visibleData r)) = {n \<in> set (nodes g). tier_visible g ag ex n}"
    and "highlightedNodeIds r = {}"
    by auto
  with r show ?thesis by blast
qed

lemma search_nodes_plain:
  assumes "q \<noteq> []" and "plain_links (links g)"
  shows "\<exists>r. visibility lower g ag E1 q = Inr r \<and> visibility lower g ag E2 q = Inr r \<and>
           nodes (visibleData r) = filter (\<lambda>n. group_n n \<in> ag) (nodes g)"
  using assms by (simp add: search_result)

lemma visible_links_returned:
  assumes "visibility lower g ag ex q = Inr r"
  shows "links (visibleData r) = filter (both_ends_in (nodes (visibleData r))) (links g)"
proof (cases "q = []")
  case True
  with assms explore_returns show ?thesis by blast
next
  case False
  with assms search_returns show ?thesis by blast
qed

lemma satellite_gating_plain:
  assumes "distinct (map id_n (nodes g))"
    and "plain_links (links g)" and "plain_satellites ag (nodes g)"
    and "n \<in> set (nodes g)" and "group_n n = ''satellite''" and "''satellite'' \<in> ag"
  shows "\<exists>r. visibility lower g ag ex '''' = Inr r \<and>
           (n \<in> set (nodes (visibleData r)) \<longleftrightarrow>
              (\<exists>y \<in> undirected_neighbors (links g) (id_n n). y \<in> ex)) \<and>
           (\<forall>y. y \<notin> id_n ` set (nodes (visibleData r)) \<longrightarrow>
              (\<forall>l \<in> set (links (visibleData r)). plain_id (source l) \<noteq> y \<and> plain_id (target l) \<noteq> y))"
proof -
  from explore_visible_iff_plain [OF assms(1,2,3)]
  obtain r where r: "visibility lower g ag ex [] = Inr r"
    and s: "set (nodes (visibleData r)) = {n \<in> set (nodes g). tier_visible g ag ex n}"
    by blast
  have a: "n \<in> set (nodes (visibleData r)) \<longleftrightarrow>
              (\<exists>y \<in> undirected_neighbors (links g) (id_n n). y \<in> ex)"
    unfolding s using assms(4,5,6) by (simp add: tier_visible_def)
  have b: "\<forall>y. y \<notin> id_n ` set (nodes (visibleData r)) \<longrightarrow>
              (\<forall>l \<in> set (links (visibleData r)). plain_id (source l) \<noteq> y \<and> plain_id (target l) \<noteq> y)"
    unfolding visible_links_returned [OF r] by (auto simp: both_ends_in_def)
  from r a b show ?thesis by blast
qed

lemma ctor_graph_links_not_plain: "\<not> plain_links (links ctor_graph)"
  by code_simp

lemma explore_any_lower:
  "visibility lower g ag ex [] = visibility ascii_lower g ag ex []"
  by (simp only: explore_result)

section \<open>Properties of the click handler and of the ingestion\<close>

lemma handleNodeClick_expanded:
  "expandedNodes (handleNodeClick node st) =
     (if searchQuery st = [] then
        (if id_n node \<in> expandedNodes st then expandedNodes st - {id_n node}
         else insert (id_n node) (expandedNodes st))
      else expandedNodes st)"
  by (simp add: handleNodeClick_def Let_def)

lemma handleNodeClick_frame:
  "masterData (handleNodeClick node st) = masterData st \<and>
   activeGroups (handleNodeClick node st) = activeGroups st \<and>
   searchQuery (handleNodeClick node st) = searchQuery st"
  by (simp add: handleNodeClick_def Let_def)

lemma parse_row_step:
  "parse_row trim randomSize row st =
     (case clean_name trim row of
        None \<Rightarrow> st
      | Some c \<Rightarrow>
          if c = [] \<or> c \<in> uniqueIds st then st
          else \<lparr>p_nodes = p_nodes st @ [row_node (randomSize (sizeCalls st)) row c],
                p_links = p_links st @ [row_link c],
                uniqueIds = insert c (uniqueIds st),
                sizeCalls = Suc (sizeCalls st)\<rparr>)"
  by (simp add: parse_row_def clean_name_def Let_def split: option.splits)

lemma id_n_row_node: "id_n (row_node v row c) = c"
  by (simp add: row_node_def)

lemma target_row_link: "plain_id (target (row_link c)) = c"
  by (simp add: row_link_def plain_id_def)

lemma parse_row_other:
  assumes "clean_name trim row \<noteq> Some c \<or> c \<in> uniqueIds st"
  shows "filter (\<lambda>n. id_n n = c) (p_nodes (parse_row trim randomSize row st)) =
           filter (\<lambda>n. id_n n = c) (p_nodes st) \<and>
         filter (\<lambda>l. plain_id (target l) = c) (p_links (parse_row trim randomSize row st)) =
           filter (\<lambda>l. plain_id (target l) = c) (p_links st) \<and>
         (c \<in> uniqueIds (parse_row trim randomSize row st) \<longleftrightarrow> c \<in> uniqueIds st)"
  using assms
  by (auto simp: parse_row_step id_n_row_node target_row_link split: option.splits)

lemma fold_parse_row_seen:
  assumes "c \<in> uniqueIds st"
  shows "filter (\<lambda>n. id_n n = c) (p_nodes (fold (parse_row trim randomSize) rows st)) =
           filter (\<lambda>n. id_n n = c) (p_nodes st) \<and>
         filter (\<lambda>l. plain_id (target l) = c) (p_links (fold (parse_row trim randomSize) rows st)) =
           filter (\<lambda>l. plain_id (target l) = c) (p_links st)"
  using assms
proof (induction rows arbitrary: st)
  case Nil
  show ?case by simp
next
  case (Cons x xs)
  from Cons.prems have o: "clean_name trim x \<noteq> Some c \<or> c \<in> uniqueIds st" by simp
  from parse_row_other [OF o, of randomSize] Cons.prems
  have s: "c \<in> uniqueIds (parse_row trim randomSize x st)" by simp
  show ?case
    using Cons.IH [OF s] parse_row_other [OF o, of randomSize] by simp
qed

lemma fold_parse_row_first:
  assumes "c \<notin> uniqueIds st" and "c \<noteq> []"
    and "find (\<lambda>row. clean_name trim row = Some c) rows = Some r"
  shows "\<exists>k. filter (\<lambda>n. id_n n = c) (p_nodes (fold (parse_row trim randomSize) rows st)) =
               filter (\<lambda>n. id_n n = c) (p_nodes st) @ [row_node (randomSize k) r c] \<and>
             filter (\<lambda>l. plain_id (target l) = c) (p_links (fold (parse_row trim randomSize) rows st)) =
               filter (\<lambda>l. plain_id (target l) = c) (p_links st) @ [row_link c]"
  using assms
proof (induction rows arbitrary: st)
  case Nil
  then show ?case by simp
next
  case (Cons x xs)
  show ?case
  proof (cases "clean_name trim x = Some c")
    case True
    with Cons.prems have r: "r = x" by simp
    define st1 where "st1 = parse_row trim randomSize x st"
    have e: "st1 = \<lparr>p_nodes = p_nodes st @ [row_node (randomSize (sizeCalls st)) x c],
                p_links = p_links st @ [row_link c],
                uniqueIds = insert c (uniqueIds st),
                sizeCalls = Suc (sizeCalls st)\<rparr>"
      using True Cons.prems(1,2) by (simp add: st1_def parse_row_step)
    then have "c \<in> uniqueIds st1" by simp
    from fold_parse_row_seen [OF this, of trim randomSize xs]
    have "filter (\<lambda>n. id_n n = c) (p_nodes (fold (parse_row trim randomSize) (x # xs) st)) =
            filter (\<lambda>n. id_n n = c) (p_nodes st) @ [row_node (randomSize (sizeCalls st)) r c] \<and>
          filter (\<lambda>l. plain_id (target l) = c) (p_links (fold (parse_row trim randomSize) (x # xs) st)) =
            filter (\<lambda>l. plain_id (target l) = c) (p_links st) @ [row_link c]"
      unfolding r by (simp add: st1_def [symmetric]) (simp add: e id_n_row_node target_row_link)
    then show ?thesis by blast
  next
    case False
    then have o: "clean_name trim x \<noteq> Some c \<or> c \<in> uniqueIds st" by simp
    note p = parse_row_other [OF o, of randomSize]
    from p Cons.prems(1) have n: "c \<notin> uniqueIds (parse_row trim randomSize x st)" by simp
    from False Cons.prems(3) have f: "find (\<lambda>row. clean_name trim row = Some c) xs = Some r" by simp
    from Cons.IH [OF n Cons.prems(2) f] p show ?thesis by simp
  qed
qed

lemma parse_row_blank:
  "clean_name trim b = Some [] \<or> clean_name trim b = None \<Longrightarrow> parse_row trim randomSize b st = st"
  by (auto simp: parse_row_step)

lemma parse_row_names:
  assumes "\<forall>n \<in> set (p_nodes st). n = center_node \<or> name n = id_n n"
  shows "\<forall>n \<in> set (p_nodes (parse_row trim randomSize row st)). n = center_node \<or> name n = id_n n"
  using assms by (auto simp: parse_row_step row_node_def split: option.splits)

lemma fold_parse_row_names:
  assumes "\<forall>n \<in> set (p_nodes st). n = center_node \<or> name n = id_n n"
  shows "\<forall>n \<in> set (p_nodes (fold (parse_row trim randomSize) rows st)).
           n = center_node \<or> name n = id_n n"
  using assms
proof (induction rows arbitrary: st)
  case Nil
  then show ?case by simp
next
  case (Cons x xs)
  from Cons.IH [OF parse_row_names [OF Cons.prems]] show ?case by simp
qed

lemma parseCsvToGraph_names:
  "\<forall>n \<in> set (nodes (parseCsvToGraph trim randomSize rows)). n = center_node \<or> name n = id_n n"
  using fold_parse_row_names [of "\<lparr>p_nodes = [center_node], p_links = [], uniqueIds = {centerId}, sizeCalls = 0\<rparr>"
      trim randomSize rows]
  by (simp add: parseCsvToGraph_def Let_def)

lemma filter_name_id:
  assumes "c \<noteq> ''AGI_CORE''" and "c \<noteq> ''AGI Future''"
  shows "filter (\<lambda>n. name n = c) (nodes (parseCsvToGraph trim randomSize rows)) =
         filter (\<lambda>n. id_n n = c) (nodes (parseCsvToGraph trim randomSize rows))"
proof (rule filter_cong [OF refl])
  fix n assume "n \<in> set (nodes (parseCsvToGraph trim randomSize rows))"
  with parseCsvToGraph_names have "n = center_node \<or> name n = id_n n" by blast
  with assms show "(name n = c) = (id_n n = c)"
    by (auto simp: center_node_def centerId_def)
qed

section \<open>The claims\<close>

subsection \<open>C1: visibility in explore mode\<close>

text \<open>
  C1 asks that in explore mode, on every graph, a node be visible exactly when its group
  is active and it is of the center or planet tier or a satellite with a neighbour in the
  expansion set. The code misses this on a graph it can import: for the CSV file with the
  header \<open>Name\<close> and the one data line \<open>constructor\<close>, the adjacency list is never given
  an array under \<open>constructor\<close> (the inherited property is truthy), the \<open>push\<close> of line 56
  throws, and the derivation yields a \<open>TypeError\<close> where the rule lets both nodes through.
  With \<open>Builder\<close> in place of \<open>constructor\<close> the same import shows both nodes; and in
  \<open>two_planet_graph\<close> the satellite is shown when either planet alone is expanded and
  hidden when only the center is. (Where the derivation does not throw, and ids are
  distinct, the visible nodes are those of the rule: \<open>explore_visible_iff_plain\<close>.)
\<close>

theorem explore_constructor_import:
  "visibility lower ctor_graph all_groups {''AGI_CORE''} '''' = Inl TypeError \<and>
   map id_n (nodes ctor_graph) = [''AGI_CORE'', ''constructor''] \<and>
   map group_n (nodes ctor_graph) = [''center'', ''planet''] \<and>
   links ctor_graph = [plain_link (Id ''AGI_CORE'') (Id ''constructor'')] \<and>
   tier_visible ctor_graph all_groups {''AGI_CORE''} (nodes ctor_graph ! 0) \<and>
   tier_visible ctor_graph all_groups {''AGI_CORE''} (nodes ctor_graph ! 1) \<and>
   visibility lower builder_graph all_groups {''AGI_CORE''} '''' =
     Inr \<lparr>visibleData = builder_graph, highlightedNodeIds = {}\<rparr> \<and>
   visibility lower two_planet_graph all_groups {''P1''} '''' =
     Inr \<lparr>visibleData = two_planet_graph, highlightedNodeIds = {}\<rparr> \<and>
   visibility lower two_planet_graph all_groups {''P2''} '''' =
     Inr \<lparr>visibleData = two_planet_graph, highlightedNodeIds = {}\<rparr> \<and>
   visibility lower two_planet_graph all_groups {''AGI_CORE''} '''' =
     Inr \<lparr>visibleData =
            \<lparr>nodes = [plain_node ''AGI_CORE'' ''Core'' ''center'', plain_node ''P1'' ''One'' ''planet'',
                      plain_node ''P2'' ''Two'' ''planet''],
             links = [plain_link (Id ''AGI_CORE'') (Id ''P1''), plain_link (Id ''AGI_CORE'') (Id ''P2'')]\<rparr>,
          highlightedNodeIds = {}\<rparr>"
proof (intro conjI)
  show "visibility lower ctor_graph all_groups {''AGI_CORE''} '''' = Inl TypeError"
    by (simp add: explore_result ctor_graph_links_not_plain)
  show "map id_n (nodes ctor_graph) = [''AGI_CORE'', ''constructor'']"
    by code_simp
  show g: "map group_n (nodes ctor_graph) = [''center'', ''planet'']"
    by code_simp
  show "links ctor_graph = [plain_link (Id ''AGI_CORE'') (Id ''constructor'')]"
    by code_simp
  have g0: "group_n (nodes ctor_graph ! 0) = ''center''" and g1: "group_n (nodes ctor_graph ! 1) = ''planet''"
    by code_simp+
  show "tier_visible ctor_graph all_groups {''AGI_CORE''} (nodes ctor_graph ! 0)"
    unfolding tier_visible_def g0 by (simp add: all_groups_def)
  show "tier_visible ctor_graph all_groups {''AGI_CORE''} (nodes ctor_graph ! 1)"
    unfolding tier_visible_def g1 by (simp add: all_groups_def)
  show "visibility lower builder_graph all_groups {''AGI_CORE''} '''' =
     Inr \<lparr>visibleData = builder_graph, highlightedNodeIds = {}\<rparr>"
    unfolding explore_any_lower [of lower] by code_simp
  show "visibility lower two_planet_graph all_groups {''P1''} '''' =
     Inr \<lparr>visibleData = two_planet_graph, highlightedNodeIds = {}\<rparr>"
    unfolding explore_any_lower [of lower] by code_simp
  show "visibility lower two_planet_graph all_groups {''P2''} '''' =
     Inr \<lparr>visibleData = two_planet_graph, highlightedNodeIds = {}\<rparr>"
    unfolding explore_any_lower [of lower] by code_simp
  show "visibility lower two_planet_graph all_groups {''AGI_CORE''} '''' =
     Inr \<lparr>visibleData =
            \<lparr>nodes = [plain_node ''AGI_CORE'' ''Core'' ''center'', plain_node ''P1'' ''One'' ''planet'',
                      plain_node ''P2'' ''Two'' ''planet''],
             links = [plain_link (Id ''AGI_CORE'') (Id ''P1''), plain_link (Id ''AGI_CORE'') (Id ''P2'')]\<rparr>,
          highlightedNodeIds = {}\<rparr>"
    unfolding explore_any_lower [of lower] by code_simp
qed

subsection \<open>C2: search mode ignores the expansion set\<close>

text \<open>
  C2 asks that in search mode, on every graph, the visible nodes be exactly the nodes of
  an active group, whatever the expansion set. The adjacency list is built before the
  two modes part, so on the import of \<open>Name\<close>, \<open>constructor\<close> a search throws a \<open>TypeError\<close>
  under every expansion set, where the claim has the center and the planet visible.
  With \<open>Builder\<close> in place of \<open>constructor\<close> a search shows the nodes of the active groups
  under either expansion set. (Where the derivation does not throw, the visible nodes
  are those of the claim: \<open>search_nodes_plain\<close>.)
\<close>

theorem search_constructor_import:
  "visibility lower ctor_graph all_groups {''AGI_CORE''} ''con'' = Inl TypeError \<and>
   visibility lower ctor_graph all_groups {} ''con'' = Inl TypeError \<and>
   map id_n (filter (\<lambda>n. group_n n \<in> all_groups) (nodes ctor_graph)) = [''AGI_CORE'', ''constructor''] \<and>
   visibility ascii_lower builder_graph all_groups {''AGI_CORE''} ''BUILD'' =
     Inr \<lparr>visibleData = builder_graph, highlightedNodeIds = {''Builder''}\<rparr> \<and>
   visibility ascii_lower builder_graph all_groups {} ''BUILD'' =
     Inr \<lparr>visibleData = builder_graph, highlightedNodeIds = {''Builder''}\<rparr> \<and>
   visibility ascii_lower builder_graph {''planet''} {''AGI_CORE''} ''BUILD'' =
     Inr \<lparr>visibleData = \<lparr>nodes = [nodes builder_graph ! 1], links = []\<rparr>,
          highlightedNodeIds = {''Builder''}\<rparr> \<and>
   visibility ascii_lower two_planet_graph {''satellite''} {} ''x'' =
     Inr \<lparr>visibleData = \<lparr>nodes = [plain_node ''S'' ''Moon'' ''satellite''], links = []\<rparr>,
          highlightedNodeIds = {}\<rparr>"
proof (intro conjI)
  show "visibility lower ctor_graph all_groups {''AGI_CORE''} ''con'' = Inl TypeError"
    by (simp add: search_result ctor_graph_links_not_plain)
  show "visibility lower ctor_graph all_groups {} ''con'' = Inl TypeError"
    by (simp add: search_result ctor_graph_links_not_plain)
qed code_simp+

subsection \<open>C3: a graph without the reserved center id\<close>

text \<open>
  C3, as stated, fails: the explore branch never looks for the reserved id, so a graph of
  one planet and no center shows the planet.
\<close>

theorem missing_center_counterexample:
  "''AGI_CORE'' \<notin> id_n ` set (nodes lone_planet_graph) \<and>
   visibility ascii_lower lone_planet_graph all_groups {''AGI_CORE''} '''' =
     Inr \<lparr>visibleData = \<lparr>nodes = [plain_node ''P'' ''Planet'' ''planet''], links = []\<rparr>,
          highlightedNodeIds = {}\<rparr>"
  by code_simp

text \<open>
  C3, amended: on a graph in which no node has the reserved center id (and in which no
  end of a link and no id of an active satellite is an inherited property name), explore
  mode signals no error and applies the tier rule as on any graph: the visible nodes are
  the nodes whose id passes the tier rule (with distinct ids, the nodes that pass it), the
  visible links are the links between visible nodes, and nothing is highlighted. The
  result is empty exactly when no node passes the tier rule. The center id is neither
  among the visible nodes nor at an end of a visible link.
\<close>

theorem missing_center_tier_rule:
  assumes "''AGI_CORE'' \<notin> id_n ` set (nodes g)"
    and "plain_links (links g)" and "plain_satellites ag (nodes g)"
  shows "\<exists>r. visibility lower g ag ex '''' = Inr r \<and>
           nodes (visibleData r) = filter (\<lambda>n. id_n n \<in> tier_ids g ag ex) (nodes g) \<and>
           (distinct (map id_n (nodes g)) \<longrightarrow>
              nodes (visibleData r) = filter (tier_visible g ag ex) (nodes g)) \<and>
           links (visibleData r) = filter (both_ends_in (nodes (visibleData r))) (links g) \<and>
           highlightedNodeIds r = {} \<and>
           (nodes (visibleData r) = [] \<longleftrightarrow> (\<forall>n \<in> set (nodes g). \<not> tier_visible g ag ex n)) \<and>
           (nodes (visibleData r) = [] \<longrightarrow> links (visibleData r) = []) \<and>
           ''AGI_CORE'' \<notin> id_n ` set (nodes (visibleData r)) \<and>
           (\<forall>l \<in> set (links (visibleData r)).
              plain_id (source l) \<noteq> ''AGI_CORE'' \<and> plain_id (target l) \<noteq> ''AGI_CORE'')"
proof -
  from explore_plain [OF assms(2,3)]
  obtain r where r: "visibility lower g ag ex [] = Inr r" by blast
  note e = explore_returns [OF r]
  have n: "nodes (visibleData r) = filter (\<lambda>n. id_n n \<in> tier_ids g ag ex) (nodes g)"
    using e by blast
  have l: "links (visibleData r) = filter (both_ends_in (nodes (visibleData r))) (links g)"
    using e by blast
  have h: "highlightedNodeIds r = {}" using e by blast
  have d: "distinct (map id_n (nodes g)) \<longrightarrow>
              nodes (visibleData r) = filter (tier_visible g ag ex) (nodes g)"
    by (simp add: n filter_tier_ids)
  have ids: "id_n ` set (nodes (visibleData r)) = tier_ids g ag ex"
    unfolding n by (rule explore_visible_ids)
  have a: "nodes (visibleData r) = [] \<longleftrightarrow> tier_ids g ag ex = {}"
    using ids by auto
  have b: "tier_ids g ag ex = {} \<longleftrightarrow> (\<forall>n \<in> set (nodes g). \<not> tier_visible g ag ex n)"
    by (auto simp: tier_ids_def)
  have c: "nodes (visibleData r) = [] \<longrightarrow> links (visibleData r) = []"
  proof
    assume "nodes (visibleData r) = []"
    then have "filter (both_ends_in (nodes (visibleData r))) (links g) = []"
      by (simp add: both_ends_in_def)
    with l show "links (visibleData r) = []" by simp
  qed
  have v: "''AGI_CORE'' \<notin> id_n ` set (nodes (visibleData r))"
    using assms(1) unfolding n by auto
  have w: "\<forall>l \<in> set (links (visibleData r)).
              plain_id (source l) \<noteq> ''AGI_CORE'' \<and> plain_id (target l) \<noteq> ''AGI_CORE''"
  proof
    fix k assume "k \<in> set (links (visibleData r))"
    with l have "both_ends_in (nodes (visibleData r)) k" by auto
    with v show "plain_id (source k) \<noteq> ''AGI_CORE'' \<and> plain_id (target k) \<noteq> ''AGI_CORE''"
      by (auto simp: both_ends_in_def)
  qed
  from r n d l h a b c v w show ?thesis by blast
qed

text \<open>
  Witness for C3: \<open>headless_graph\<close> has no center; with the center id expanded it shows its
  planet, hides its satellite and keeps no link. \<open>orphan_graph\<close> shows nothing.
\<close>

theorem missing_center_tier_rule_witness:
  "''AGI_CORE'' \<notin> id_n ` set (nodes headless_graph) \<and>
   plain_links (links headless_graph) \<and> plain_satellites all_groups (nodes headless_graph) \<and>
   visibility ascii_lower headless_graph all_groups {''AGI_CORE''} '''' =
     Inr \<lparr>visibleData = \<lparr>nodes = [plain_node ''P'' ''Planet'' ''planet''], links = []\<rparr>,
          highlightedNodeIds = {}\<rparr> \<and>
   filter (tier_visible headless_graph all_groups {''AGI_CORE''}) (nodes headless_graph) =
     [plain_node ''P'' ''Planet'' ''planet''] \<and>
   ''AGI_CORE'' \<notin> id_n ` set (nodes orphan_graph) \<and>
   plain_links (links orphan_graph) \<and> plain_satellites all_groups (nodes orphan_graph) \<and>
   visibility ascii_lower orphan_graph all_groups {''AGI_CORE''} '''' =
     Inr \<lparr>visibleData = \<lparr>nodes = [], links = []\<rparr>, highlightedNodeIds = {}\<rparr> \<and>
   filter (tier_visible orphan_graph all_groups {''AGI_CORE''}) (nodes orphan_graph) = []"
proof -
  have h1: "''AGI_CORE'' \<notin> id_n ` set (nodes headless_graph)"
    by (simp add: headless_graph_def plain_node_def)
  have h2: "plain_links (links headless_graph)" by code_simp
  have h3: "plain_satellites all_groups (nodes headless_graph)" by code_simp
  have hd: "distinct (map id_n (nodes headless_graph))" by code_simp
  have hv: "visibility ascii_lower headless_graph all_groups {''AGI_CORE''} '''' =
     Inr \<lparr>visibleData = \<lparr>nodes = [plain_node ''P'' ''Planet'' ''planet''], links = []\<rparr>,
          highlightedNodeIds = {}\<rparr>"
    by code_simp
  have o1: "''AGI_CORE'' \<notin> id_n ` set (nodes orphan_graph)"
    by (simp add: orphan_graph_def plain_node_def)
  have o2: "plain_links (links orphan_graph)" by code_simp
  have o3: "plain_satellites all_groups (nodes orphan_graph)" by code_simp
  have od: "distinct (map id_n (nodes orphan_graph))" by code_simp
  have ov: "visibility ascii_lower orphan_graph all_groups {''AGI_CORE''} '''' =
     Inr \<lparr>visibleData = \<lparr>nodes = [], links = []\<rparr>, highlightedNodeIds = {}\<rparr>"
    by code_simp
  from missing_center_tier_rule [OF h1 h2 h3, of ascii_lower "{''AGI_CORE''}"] hd hv
  have hf: "filter (tier_visible headless_graph all_groups {''AGI_CORE''}) (nodes headless_graph) =
     [plain_node ''P'' ''Planet'' ''planet'']"
    by auto
  from missing_center_tier_rule [OF o1 o2 o3, of ascii_lower "{''AGI_CORE''}"] od ov
  have "filter (tier_visible orphan_graph all_groups {''AGI_CORE''}) (nodes orphan_graph) = []"
    by auto
  with h1 h2 h3 hv hf o1 o2 o3 ov show ?thesis by (intro conjI)
qed

subsection \<open>C4: the highlighted ids of a search\<close>

text \<open>
  C4, as stated, fails: the matches are taken from all nodes of the graph (line 87), not
  from the nodes that pass the category filter, so a match in a hidden tier is
  highlighted without being visible. On the built-in graph with only the center tier
  active, the query \<open>neural\<close> highlights two ids and neither is visible.
\<close>

theorem highlight_not_subset_counterexample:
  "\<exists>r. visibility ascii_lower DEFAULT_GRAPH_DATA {''center''} {''AGI_CORE''} ''neural'' = Inr r \<and>
       map id_n (nodes (visibleData r)) = [''AGI_CORE''] \<and>
       highlightedNodeIds r = {''Neural_Nets'', ''Symbolic''} \<and>
       \<not> highlightedNodeIds r \<subseteq> id_n ` set (nodes (visibleData r))"
proof -
  let ?v = "visibility ascii_lower DEFAULT_GRAPH_DATA {''center''} {''AGI_CORE''} ''neural''"
  have r: "?v = Inr (projr ?v)" by code_simp
  have n: "map id_n (nodes (visibleData (projr ?v))) = [''AGI_CORE'']" by code_simp
  have h: "highlightedNodeIds (projr ?v) = {''Neural_Nets'', ''Symbolic''}" by code_simp
  have "\<not> highlightedNodeIds (projr ?v) \<subseteq> id_n ` set (nodes (visibleData (projr ?v)))"
    unfolding h using n by (simp flip: set_map)
  with r n h show ?thesis
    by (intro exI [of _ "projr ?v"] conjI)
qed

text \<open>
  C4, amended: in search mode (on a graph in which no end of a link is an inherited
  property name) the highlighted ids are exactly the ids of the nodes of the graph, in an
  active group or not, whose name or desc contains the query as a substring with letter
  case ignored. So every visible node that matches is highlighted, and when node ids are
  pairwise distinct a visible node is highlighted iff it matches; the set need not be a
  subset of the visible ids.
\<close>

theorem highlight_all_matches:
  assumes "q \<noteq> []" and "plain_links (links g)"
  shows "\<exists>r. visibility lower g ag ex q = Inr r \<and>
           highlightedNodeIds r = id_n ` {n \<in> set (nodes g). matches_query lower q n} \<and>
           (\<forall>n \<in> set (nodes (visibleData r)).
              matches_query lower q n \<longrightarrow> id_n n \<in> highlightedNodeIds r) \<and>
           (distinct (map id_n (nodes g)) \<longrightarrow>
              (\<forall>n \<in> set (nodes (visibleData r)).
                 id_n n \<in> highlightedNodeIds r \<longleftrightarrow> matches_query lower q n))"
proof -
  define r where "r = \<lparr>visibleData =
               \<lparr>nodes = filter (\<lambda>n. group_n n \<in> ag) (nodes g),
                links = filter (\<lambda>l. plain_id (source l) \<in> id_n ` {n \<in> set (nodes g). group_n n \<in> ag} \<and>
                                     plain_id (target l) \<in> id_n ` {n \<in> set (nodes g). group_n n \<in> ag})
                          (links g)\<rparr>,
             highlightedNodeIds = id_n ` {n \<in> set (nodes g). matches_query lower q n}\<rparr>"
  have v: "visibility lower g ag ex q = Inr r"
    unfolding r_def by (rule search_plain [OF assms])
  have h: "highlightedNodeIds r = id_n ` {n \<in> set (nodes g). matches_query lower q n}"
    by (simp add: r_def)
  have n: "nodes (visibleData r) = filter (\<lambda>n. group_n n \<in> ag) (nodes g)"
    by (simp add: r_def)
  have a: "\<forall>n \<in> set (nodes (visibleData r)).
              matches_query lower q n \<longrightarrow> id_n n \<in> highlightedNodeIds r"
    unfolding h n by auto
  have b: "distinct (map id_n (nodes g)) \<longrightarrow>
              (\<forall>n \<in> set (nodes (visibleData r)).
                 id_n n \<in> highlightedNodeIds r \<longleftrightarrow> matches_query lower q n)"
  proof (intro impI ballI)
    fix m assume d: "distinct (map id_n (nodes g))" and "m \<in> set (nodes (visibleData r))"
    then have m: "m \<in> set (nodes g)" by (simp add: n)
    show "id_n m \<in> highlightedNodeIds r \<longleftrightarrow> matches_query lower q m"
      unfolding h using distinct_id_eq [OF d m] m by auto
  qed
  from v h a b show ?thesis by blast
qed

text \<open>
  Witness for C4: the search for \<open>NEURAL\<close>, in capitals, on the built-in graph with all
  groups active highlights two ids; of the visible nodes, \<open>Neural_Nets\<close> (named
  \<open>Neural Networks\<close>) matches and the center does not.
\<close>

theorem highlight_all_matches_witness:
  "''NEURAL'' \<noteq> [] \<and> plain_links (links DEFAULT_GRAPH_DATA) \<and>
   distinct (map id_n (nodes DEFAULT_GRAPH_DATA)) \<and>
   (\<exists>r. visibility ascii_lower DEFAULT_GRAPH_DATA all_groups {''AGI_CORE''} ''NEURAL'' = Inr r \<and>
        highlightedNodeIds r = {''Neural_Nets'', ''Symbolic''} \<and>
        highlightedNodeIds r =
          id_n ` {n \<in> set (nodes DEFAULT_GRAPH_DATA). matches_query ascii_lower ''NEURAL'' n} \<and>
        nodes DEFAULT_GRAPH_DATA ! 1 \<in> set (nodes (visibleData r)) \<and>
        nodes DEFAULT_GRAPH_DATA ! 0 \<in> set (nodes (visibleData r))) \<and>
   id_n (nodes DEFAULT_GRAPH_DATA ! 1) = ''Neural_Nets'' \<and>
   name (nodes DEFAULT_GRAPH_DATA ! 1) = ''Neural Networks'' \<and>
   matches_query ascii_lower ''NEURAL'' (nodes DEFAULT_GRAPH_DATA ! 1) \<and>
   \<not> matches_query ascii_lower ''NEURAL'' (nodes DEFAULT_GRAPH_DATA ! 0)"
proof -
  let ?v = "visibility ascii_lower DEFAULT_GRAPH_DATA all_groups {''AGI_CORE''} ''NEURAL''"
  have q: "''NEURAL'' \<noteq> []" by simp
  have p: "plain_links (links DEFAULT_GRAPH_DATA)" by code_simp
  have d: "distinct (map id_n (nodes DEFAULT_GRAPH_DATA))" by code_simp
  have i0: "id_n (nodes DEFAULT_GRAPH_DATA ! 0) = ''AGI_CORE''"
    and i1: "id_n (nodes DEFAULT_GRAPH_DATA ! 1) = ''Neural_Nets''"
    and nm: "name (nodes DEFAULT_GRAPH_DATA ! 1) = ''Neural Networks''"
    by (simp_all add: DEFAULT_GRAPH_DATA_def)
  have hv: "highlightedNodeIds (projr ?v) = {''Neural_Nets'', ''Symbolic''}" by code_simp
  have n: "nodes (visibleData (projr ?v)) = nodes DEFAULT_GRAPH_DATA"
    by (simp add: search_plain [OF q p]) (simp add: DEFAULT_GRAPH_DATA_def all_groups_def)
  from highlight_all_matches [OF q p, of ascii_lower all_groups "{''AGI_CORE''}"]
  obtain r where r: "?v = Inr r"
    and h: "highlightedNodeIds r =
          id_n ` {n \<in> set (nodes DEFAULT_GRAPH_DATA). matches_query ascii_lower ''NEURAL'' n}"
    and iff: "distinct (map id_n (nodes DEFAULT_GRAPH_DATA)) \<longrightarrow>
              (\<forall>n \<in> set (nodes (visibleData r)).
                 id_n n \<in> highlightedNodeIds r \<longleftrightarrow> matches_query ascii_lower ''NEURAL'' n)"
    by blast
  from r have pr: "projr ?v = r" by simp
  have n0: "nodes DEFAULT_GRAPH_DATA ! 0 \<in> set (nodes (visibleData r))"
    and n1: "nodes DEFAULT_GRAPH_DATA ! 1 \<in> set (nodes (visibleData r))"
    unfolding pr [symmetric] n by (simp_all add: DEFAULT_GRAPH_DATA_def)
  have hr: "highlightedNodeIds r = {''Neural_Nets'', ''Symbolic''}"
    using hv pr by simp
  from iff d have iff': "\<forall>n \<in> set (nodes (visibleData r)).
                 id_n n \<in> highlightedNodeIds r \<longleftrightarrow> matches_query ascii_lower ''NEURAL'' n"
    by blast
  from bspec [OF iff' n1] hr i1 have m1: "matches_query ascii_lower ''NEURAL'' (nodes DEFAULT_GRAPH_DATA ! 1)"
    by simp
  from bspec [OF iff' n0] hr i0 have m0: "\<not> matches_query ascii_lower ''NEURAL'' (nodes DEFAULT_GRAPH_DATA ! 0)"
    by simp
  from r hr h n1 n0 have "\<exists>r. ?v = Inr r \<and>
        highlightedNodeIds r = {''Neural_Nets'', ''Symbolic''} \<and>
        highlightedNodeIds r =
          id_n ` {n \<in> set (nodes DEFAULT_GRAPH_DATA). matches_query ascii_lower ''NEURAL'' n} \<and>
        nodes DEFAULT_GRAPH_DATA ! 1 \<in> set (nodes (visibleData r)) \<and>
        nodes DEFAULT_GRAPH_DATA ! 0 \<in> set (nodes (visibleData r))"
    by (intro exI [of _ r] conjI)
  with q p d i1 nm m1 m0 show ?thesis by (intro conjI)
qed

subsection \<open>C5: collapsing the center\<close>

text \<open>
  C5, as stated, fails: no state has the center node (reserved id, center tier) in the
  graph, all three groups active, and explore mode returning an empty list of visible
  nodes, whatever the expansion set is, and so also after the center id has been toggled
  out of it. The center tier is never gated by expansion (line 129).
\<close>

theorem center_always_shown_counterexample:
  "\<not> (\<exists>lower g ag ex c r. c \<in> set (nodes g) \<and> id_n c = ''AGI_CORE'' \<and> group_n c = ''center'' \<and>
         all_groups \<subseteq> ag \<and> visibility lower g ag ex '''' = Inr r \<and> nodes (visibleData r) = [])"
proof
  assume "\<exists>lower g ag ex c r. c \<in> set (nodes g) \<and> id_n c = ''AGI_CORE'' \<and> group_n c = ''center'' \<and>
         all_groups \<subseteq> ag \<and> visibility lower g ag ex '''' = Inr r \<and> nodes (visibleData r) = []"
  then obtain lower g ag ex c r
    where c: "c \<in> set (nodes g)" "group_n c = ''center''" "all_groups \<subseteq> ag"
    and v: "visibility lower g ag ex '''' = Inr r" and e: "nodes (visibleData r) = []"
    by blast
  from c have "tier_visible g ag ex c"
    by (auto simp: tier_visible_def all_groups_def)
  with c(1) have "id_n c \<in> tier_ids g ag ex" by (auto simp: tier_ids_def)
  with c(1) have "c \<in> set (filter (\<lambda>n. id_n n \<in> tier_ids g ag ex) (nodes g))" by simp
  with explore_returns [OF v] e show False by simp
qed

text \<open>
  C5, amended: toggling the center id out of the expansion set is permitted, and with the
  center node in the graph and the center group active (and no end of a link and no id of
  an active satellite an inherited property name) it never empties the explore view:
  after the click the center id is out of the expansion set, the derivation returns, the
  center node is still visible, and so is every planet while the planet group is active.
\<close>

theorem center_collapse_keeps_center:
  assumes "c \<in> set (nodes (masterData st))" and "id_n c = ''AGI_CORE''" and "group_n c = ''center''"
    and "''center'' \<in> activeGroups st" and "searchQuery st = []" and "''AGI_CORE'' \<in> expandedNodes st"
    and "plain_links (links (masterData st))"
    and "plain_satellites (activeGroups st) (nodes (masterData st))"
  shows "''AGI_CORE'' \<notin> expandedNodes (handleNodeClick c st) \<and>
         (\<exists>r. derived lower (handleNodeClick c st) = Inr r \<and>
              c \<in> set (nodes (visibleData r)) \<and>
              (\<forall>p \<in> set (nodes (masterData st)).
                 group_n p = ''planet'' \<and> ''planet'' \<in> activeGroups st \<longrightarrow>
                 p \<in> set (nodes (visibleData r))))"
proof -
  let ?st = "handleNodeClick c st"
  let ?g = "masterData st" and ?ag = "activeGroups st" and ?ex = "expandedNodes (handleNodeClick c st)"
  have x: "''AGI_CORE'' \<notin> expandedNodes ?st"
    using assms by (simp add: handleNodeClick_expanded)
  have d: "derived lower ?st = visibility lower ?g ?ag ?ex []"
    using assms(5) by (simp add: derived_def handleNodeClick_frame)
  from explore_plain [OF assms(7,8), of lower ?ex]
  obtain r where r: "visibility lower ?g ?ag ?ex [] = Inr r" by blast
  from explore_returns [OF r]
  have n: "nodes (visibleData r) = filter (\<lambda>n. id_n n \<in> tier_ids ?g ?ag ?ex) (nodes ?g)" by blast
  have shown: "p \<in> set (nodes (visibleData r))"
    if "p \<in> set (nodes ?g)" "tier_visible ?g ?ag ?ex p" for p
    using that unfolding n by (auto simp: tier_ids_def)
  have "tier_visible ?g ?ag ?ex c"
    using assms by (simp add: tier_visible_def)
  with assms(1) have cv: "c \<in> set (nodes (visibleData r))" by (rule shown)
  have pv: "\<forall>p \<in> set (nodes ?g). group_n p = ''planet'' \<and> ''planet'' \<in> ?ag \<longrightarrow>
                 p \<in> set (nodes (visibleData r))"
  proof (intro ballI impI)
    fix p assume p: "p \<in> set (nodes ?g)" and "group_n p = ''planet'' \<and> ''planet'' \<in> ?ag"
    then have "tier_visible ?g ?ag ?ex p" by (simp add: tier_visible_def)
    with p show "p \<in> set (nodes (visibleData r))" by (rule shown)
  qed
  from x d r cv pv show ?thesis by auto
qed

text \<open>
  Witness for C5: a click on the center of the built-in graph at startup empties the
  expansion set and leaves the center and the five planets visible.
\<close>

theorem center_collapse_keeps_center_witness:
  "hd (nodes DEFAULT_GRAPH_DATA) \<in> set (nodes (masterData initial_state)) \<and>
   id_n (hd (nodes DEFAULT_GRAPH_DATA)) = ''AGI_CORE'' \<and>
   group_n (hd (nodes DEFAULT_GRAPH_DATA)) = ''center'' \<and>
   ''center'' \<in> activeGroups initial_state \<and> searchQuery initial_state = [] \<and>
   ''AGI_CORE'' \<in> expandedNodes initial_state \<and>
   plain_links (links (masterData initial_state)) \<and>
   plain_satellites (activeGroups initial_state) (nodes (masterData initial_state)) \<and>
   expandedNodes (handleNodeClick (hd (nodes DEFAULT_GRAPH_DATA)) initial_state) = {} \<and>
   (\<exists>r. derived ascii_lower (handleNodeClick (hd (nodes DEFAULT_GRAPH_DATA)) initial_state) = Inr r \<and>
        hd (nodes DEFAULT_GRAPH_DATA) \<in> set (nodes (visibleData r)) \<and>
        map id_n (nodes (visibleData r)) =
          [''AGI_CORE'', ''Neural_Nets'', ''Reasoning'', ''Creativity'', ''Ethics'', ''Robotics''])"
proof -
  let ?c = "hd (nodes DEFAULT_GRAPH_DATA)"
  let ?v = "derived ascii_lower (handleNodeClick ?c initial_state)"
  have h1: "?c \<in> set (nodes (masterData initial_state))"
    by (simp add: initial_state_def DEFAULT_GRAPH_DATA_def)
  have h2: "id_n ?c = ''AGI_CORE''" by (simp add: DEFAULT_GRAPH_DATA_def)
  have h3: "group_n ?c = ''center''" by (simp add: DEFAULT_GRAPH_DATA_def)
  have h4: "''center'' \<in> activeGroups initial_state" by (simp add: initial_state_def all_groups_def)
  have h5: "searchQuery initial_state = []" by (simp add: initial_state_def)
  have h6: "''AGI_CORE'' \<in> expandedNodes initial_state" by (simp add: initial_state_def)
  have h7: "plain_links (links (masterData initial_state))" by code_simp
  have h8: "plain_satellites (activeGroups initial_state) (nodes (masterData initial_state))"
    by code_simp
  have e: "expandedNodes (handleNodeClick ?c initial_state) = {}"
    by (simp add: handleNodeClick_expanded h2) (simp add: initial_state_def)
  have m: "map id_n (nodes (visibleData (projr ?v))) =
     [''AGI_CORE'', ''Neural_Nets'', ''Reasoning'', ''Creativity'', ''Ethics'', ''Robotics'']"
    by code_simp
  from center_collapse_keeps_center [OF h1 h2 h3 h4 h5 h6 h7 h8, of ascii_lower]
  obtain r where r: "?v = Inr r" and c: "?c \<in> set (nodes (visibleData r))"
    by blast
  from r m have "map id_n (nodes (visibleData r)) =
     [''AGI_CORE'', ''Neural_Nets'', ''Reasoning'', ''Creativity'', ''Ethics'', ''Robotics'']"
    by simp
  with r c have "\<exists>r. ?v = Inr r \<and> ?c \<in> set (nodes (visibleData r)) \<and>
        map id_n (nodes (visibleData r)) =
          [''AGI_CORE'', ''Neural_Nets'', ''Reasoning'', ''Creativity'', ''Ethics'', ''Robotics'']"
    by (intro exI [of _ r] conjI)
  with h1 h2 h3 h4 h5 h6 h7 h8 e show ?thesis by (intro conjI)
qed

subsection \<open>C6: the visible links\<close>

text \<open>
  C6 asks that in both modes, on every graph, the visible links be exactly the links
  whose two ends are ids of visible nodes. On the import of \<open>Name\<close>, \<open>constructor\<close> the one
  link joins two nodes of active groups, and either mode throws a \<open>TypeError\<close> instead of
  returning it. In \<open>two_planet_graph\<close> with the center tier filtered out, either mode keeps
  the two links of the satellite, one of them with a node written in place of an end,
  and drops the two links of the hidden center; in \<open>headless_graph\<close> the link from the
  absent center is dropped. (Whenever the derivation returns, in either mode, the links
  are those of the claim: \<open>visible_links_returned\<close>.)
\<close>

theorem links_constructor_import:
  "visibility lower ctor_graph all_groups {''AGI_CORE''} '''' = Inl TypeError \<and>
   visibility lower ctor_graph all_groups {''AGI_CORE''} ''con'' = Inl TypeError \<and>
   links ctor_graph = [plain_link (Id ''AGI_CORE'') (Id ''constructor'')] \<and>
   both_ends_in (filter (\<lambda>n. group_n n \<in> all_groups) (nodes ctor_graph))
     (plain_link (Id ''AGI_CORE'') (Id ''constructor'')) \<and>
   visibility ascii_lower two_planet_graph {''planet'', ''satellite''} {} ''moon'' =
     Inr \<lparr>visibleData =
            \<lparr>nodes = [plain_node ''P1'' ''One'' ''planet'', plain_node ''P2'' ''Two'' ''planet'',
                      plain_node ''S'' ''Moon'' ''satellite''],
             links = [plain_link (Id ''P1'') (Id ''S''),
                      plain_link (Id ''P2'') (Ref (plain_node ''S'' ''Moon'' ''satellite''))]\<rparr>,
          highlightedNodeIds = {''S''}\<rparr> \<and>
   visibility ascii_lower two_planet_graph {''planet'', ''satellite''} {''P2''} '''' =
     Inr \<lparr>visibleData =
            \<lparr>nodes = [plain_node ''P1'' ''One'' ''planet'', plain_node ''P2'' ''Two'' ''planet'',
                      plain_node ''S'' ''Moon'' ''satellite''],
             links = [plain_link (Id ''P1'') (Id ''S''),
                      plain_link (Id ''P2'') (Ref (plain_node ''S'' ''Moon'' ''satellite''))]\<rparr>,
          highlightedNodeIds = {}\<rparr> \<and>
   visibility ascii_lower headless_graph all_groups {''P''} '''' =
     Inr \<lparr>visibleData = \<lparr>nodes = nodes headless_graph, links = [plain_link (Id ''P'') (Id ''S'')]\<rparr>,
          highlightedNodeIds = {}\<rparr>"
proof (intro conjI)
  show "visibility lower ctor_graph all_groups {''AGI_CORE''} '''' = Inl TypeError"
    by (simp add: explore_result ctor_graph_links_not_plain)
  show "visibility lower ctor_graph all_groups {''AGI_CORE''} ''con'' = Inl TypeError"
    by (simp add: search_result ctor_graph_links_not_plain)
  show "links ctor_graph = [plain_link (Id ''AGI_CORE'') (Id ''constructor'')]"
    by code_simp
  have "map id_n (filter (\<lambda>n. group_n n \<in> all_groups) (nodes ctor_graph)) = [''AGI_CORE'', ''constructor'']"
    by code_simp
  then have "id_n ` set (filter (\<lambda>n. group_n n \<in> all_groups) (nodes ctor_graph)) = {''AGI_CORE'', ''constructor''}"
    unfolding set_map [symmetric] by simp
  then show "both_ends_in (filter (\<lambda>n. group_n n \<in> all_groups) (nodes ctor_graph))
     (plain_link (Id ''AGI_CORE'') (Id ''constructor''))"
    by (simp add: both_ends_in_def plain_link_def plain_id_def)
qed code_simp+

subsection \<open>C7: de-duplication in the CSV ingestion\<close>

text \<open>
  C7, as stated, fails when the shared name is the reserved center id: the set of seen
  ids starts with it (line 25), so both rows are skipped, no node carries that name or
  the fields of the first row, and no link is made. Counted by name it also fails for
  the display name of the center node: two rows of that name leave two nodes of that
  name, the center and one planet.
\<close>

theorem csv_reserved_name_counterexample:
  "clean_name ascii_trim (core_rows ! 0) = Some ''AGI_CORE'' \<and>
   clean_name ascii_trim (core_rows ! 1) = Some ''AGI_CORE'' \<and>
   filter (\<lambda>n. name n = ''AGI_CORE'') (nodes (parseCsvToGraph ascii_trim fixed_size core_rows)) = [] \<and>
   map name (filter (\<lambda>n. id_n n = ''AGI_CORE'') (nodes (parseCsvToGraph ascii_trim fixed_size core_rows))) =
     [''AGI Future''] \<and>
   links (parseCsvToGraph ascii_trim fixed_size core_rows) = [] \<and>
   clean_name ascii_trim (future_rows ! 0) = Some ''AGI Future'' \<and>
   clean_name ascii_trim (future_rows ! 1) = Some ''AGI Future'' \<and>
   map id_n (filter (\<lambda>n. name n = ''AGI Future'')
     (nodes (parseCsvToGraph ascii_trim fixed_size future_rows))) = [''AGI_CORE'', ''AGI Future'']"
  by code_simp

text \<open>
  C7, amended: when one or more rows (two, in particular) resolve to the same trimmed
  name, non-empty and other than the reserved center id, the output graph has exactly
  one node with that id; its name is the same text and its desc, evidence and analysis
  are those of the first such row; it is also the only node of that name unless the
  name is the display name of the center node; and exactly one link ends at it, the one
  from the center id. A row whose trimmed name is empty, or which has no name at all,
  is skipped: the output is the same as without the row, whatever rows come before and
  after it. This holds for every \<open>trim\<close>, and so for the built-in.
\<close>

theorem csv_dedup_first_wins:
  "(find (\<lambda>row. clean_name trim row = Some c) rows = Some r \<and> c \<noteq> [] \<and> c \<noteq> ''AGI_CORE'' \<longrightarrow>
      (\<exists>k. filter (\<lambda>n. id_n n = c) (nodes (parseCsvToGraph trim randomSize rows)) =
              [row_node (randomSize k) r c] \<and>
           (c \<noteq> ''AGI Future'' \<longrightarrow>
              filter (\<lambda>n. name n = c) (nodes (parseCsvToGraph trim randomSize rows)) =
                [row_node (randomSize k) r c])) \<and>
      filter (\<lambda>l. plain_id (target l) = c) (links (parseCsvToGraph trim randomSize rows)) = [row_link c]) \<and>
   (clean_name trim b = Some [] \<or> clean_name trim b = None \<longrightarrow>
      parseCsvToGraph trim randomSize (rows1 @ b # rows2) = parseCsvToGraph trim randomSize (rows1 @ rows2))"
proof (intro conjI impI)
  assume a: "find (\<lambda>row. clean_name trim row = Some c) rows = Some r \<and> c \<noteq> [] \<and> c \<noteq> ''AGI_CORE''"
  define st0 where "st0 = \<lparr>p_nodes = [center_node], p_links = [], uniqueIds = {centerId}, sizeCalls = 0\<rparr>"
  from a have u: "c \<notin> uniqueIds st0" by (simp add: st0_def centerId_def)
  from a have i: "id_n center_node \<noteq> c" by (auto simp: center_node_def centerId_def)
  from a fold_parse_row_first [OF u, of trim rows r randomSize]
  obtain k where k: "filter (\<lambda>n. id_n n = c) (p_nodes (fold (parse_row trim randomSize) rows st0)) =
               filter (\<lambda>n. id_n n = c) (p_nodes st0) @ [row_node (randomSize k) r c]"
             "filter (\<lambda>l. plain_id (target l) = c) (p_links (fold (parse_row trim randomSize) rows st0)) =
               filter (\<lambda>l. plain_id (target l) = c) (p_links st0) @ [row_link c]"
    by blast
  have n: "nodes (parseCsvToGraph trim randomSize rows) = p_nodes (fold (parse_row trim randomSize) rows st0)"
    and l: "links (parseCsvToGraph trim randomSize rows) = p_links (fold (parse_row trim randomSize) rows st0)"
    by (simp_all add: parseCsvToGraph_def st0_def Let_def)
  from k(1) i have f: "filter (\<lambda>n. id_n n = c) (nodes (parseCsvToGraph trim randomSize rows)) =
      [row_node (randomSize k) r c]"
    unfolding n by (simp add: st0_def)
  with a filter_name_id [of c trim randomSize rows]
  show "\<exists>k. filter (\<lambda>n. id_n n = c) (nodes (parseCsvToGraph trim randomSize rows)) =
              [row_node (randomSize k) r c] \<and>
           (c \<noteq> ''AGI Future'' \<longrightarrow>
              filter (\<lambda>n. name n = c) (nodes (parseCsvToGraph trim randomSize rows)) =
                [row_node (randomSize k) r c])"
    by auto
  from k(2) show "filter (\<lambda>l. plain_id (target l) = c) (links (parseCsvToGraph trim randomSize rows)) =
      [row_link c]"
    unfolding l by (simp add: st0_def)
next
  assume "clean_name trim b = Some [] \<or> clean_name trim b = None"
  then show "parseCsvToGraph trim randomSize (rows1 @ b # rows2) =
      parseCsvToGraph trim randomSize (rows1 @ rows2)"
    by (simp add: parseCsvToGraph_def parse_row_blank)
qed

text \<open>
  Witness for C7: in \<open>foo_rows\<close> the first and the third row resolve to \<open>Foo\<close>, the second
  row is blank and the fourth has an empty name.
\<close>

theorem csv_dedup_first_wins_witness:
  "find (\<lambda>row. clean_name ascii_trim row = Some ''Foo'') foo_rows = Some (foo_rows ! 0) \<and>
   clean_name ascii_trim (foo_rows ! 2) = Some ''Foo'' \<and>
   filter (\<lambda>n. id_n n = ''Foo'') (nodes (parseCsvToGraph ascii_trim fixed_size foo_rows)) =
     [row_node 20 (foo_rows ! 0) ''Foo''] \<and>
   filter (\<lambda>n. name n = ''Foo'') (nodes (parseCsvToGraph ascii_trim fixed_size foo_rows)) =
     [row_node 20 (foo_rows ! 0) ''Foo''] \<and>
   desc (row_node 20 (foo_rows ! 0) ''Foo'') = Some ''Bar'' \<and>
   filter (\<lambda>l. plain_id (target l) = ''Foo'') (links (parseCsvToGraph ascii_trim fixed_size foo_rows)) =
     [row_link ''Foo''] \<and>
   clean_name ascii_trim (foo_rows ! 1) = Some [] \<and>
   parseCsvToGraph ascii_trim fixed_size ([foo_rows ! 0] @ foo_rows ! 1 # [foo_rows ! 2, foo_rows ! 4]) =
     parseCsvToGraph ascii_trim fixed_size ([foo_rows ! 0] @ [foo_rows ! 2, foo_rows ! 4]) \<and>
   clean_name ascii_trim (foo_rows ! 3) = None \<and>
   parseCsvToGraph ascii_trim fixed_size ([foo_rows ! 0] @ foo_rows ! 3 # [foo_rows ! 4]) =
     parseCsvToGraph ascii_trim fixed_size ([foo_rows ! 0] @ [foo_rows ! 4]) \<and>
   map id_n (nodes (parseCsvToGraph ascii_trim fixed_size foo_rows)) = [''AGI_CORE'', ''Foo'', ''Baz'']"
proof -
  have f: "find (\<lambda>row. clean_name ascii_trim row = Some ''Foo'') foo_rows = Some (foo_rows ! 0)"
    by code_simp
  have c2: "clean_name ascii_trim (foo_rows ! 2) = Some ''Foo''" by code_simp
  have c1: "clean_name ascii_trim (foo_rows ! 1) = Some []" by code_simp
  have c3: "clean_name ascii_trim (foo_rows ! 3) = None" by code_simp
  have d: "desc (row_node 20 (foo_rows ! 0) ''Foo'') = Some ''Bar''" by code_simp
  have m: "map id_n (nodes (parseCsvToGraph ascii_trim fixed_size foo_rows)) = [''AGI_CORE'', ''Foo'', ''Baz'']"
    by code_simp
  note t = csv_dedup_first_wins [of ascii_trim "''Foo''" foo_rows "foo_rows ! 0" fixed_size "foo_rows ! 1"
      "[foo_rows ! 0]" "[foo_rows ! 2, foo_rows ! 4]"]
  note t3 = csv_dedup_first_wins [of ascii_trim "''Foo''" foo_rows "foo_rows ! 0" fixed_size "foo_rows ! 3"
      "[foo_rows ! 0]" "[foo_rows ! 4]"]
  from t f have "\<exists>k. filter (\<lambda>n. id_n n = ''Foo'') (nodes (parseCsvToGraph ascii_trim fixed_size foo_rows)) =
     [row_node (fixed_size k) (foo_rows ! 0) ''Foo''] \<and>
     filter (\<lambda>n. name n = ''Foo'') (nodes (parseCsvToGraph ascii_trim fixed_size foo_rows)) =
     [row_node (fixed_size k) (foo_rows ! 0) ''Foo'']"
    by simp
  then have a: "filter (\<lambda>n. id_n n = ''Foo'') (nodes (parseCsvToGraph ascii_trim fixed_size foo_rows)) =
     [row_node 20 (foo_rows ! 0) ''Foo'']"
    and a': "filter (\<lambda>n. name n = ''Foo'') (nodes (parseCsvToGraph ascii_trim fixed_size foo_rows)) =
     [row_node 20 (foo_rows ! 0) ''Foo'']"
    by (simp_all add: fixed_size_def)
  from t f have b: "filter (\<lambda>l. plain_id (target l) = ''Foo'')
      (links (parseCsvToGraph ascii_trim fixed_size foo_rows)) = [row_link ''Foo'']"
    by simp
  from t c1 have s: "parseCsvToGraph ascii_trim fixed_size ([foo_rows ! 0] @ foo_rows ! 1 # [foo_rows ! 2, foo_rows ! 4]) =
     parseCsvToGraph ascii_trim fixed_size ([foo_rows ! 0] @ [foo_rows ! 2, foo_rows ! 4])"
    by blast
  from t3 c3 have s3: "parseCsvToGraph ascii_trim fixed_size ([foo_rows ! 0] @ foo_rows ! 3 # [foo_rows ! 4]) =
     parseCsvToGraph ascii_trim fixed_size ([foo_rows ! 0] @ [foo_rows ! 4])"
    by blast
  from f c2 a a' d b c1 s c3 s3 m show ?thesis by (intro conjI)
qed

subsection \<open>C8: the built-in graph with one planet expanded\<close>

text \<open>
  C8: on the built-in graph (1 center, 5 planets, 10 satellites, 15 links) with all three
  groups active, the center and \<open>Neural_Nets\<close> expanded and an empty query, the derivation
  returns; the visible nodes are the center, the five planets and the two satellites of
  \<open>Neural_Nets\<close> (8 nodes), and the visible links are the five center links and the two
  links of \<open>Neural_Nets\<close> (7).
\<close>

theorem default_graph_scenario:
  "\<exists>r. visibility lower DEFAULT_GRAPH_DATA {''center'', ''planet'', ''satellite''}
          {''AGI_CORE'', ''Neural_Nets''} '''' = Inr r \<and>
   map id_n (nodes (visibleData r)) =
     [''AGI_CORE'', ''Neural_Nets'', ''Reasoning'', ''Creativity'', ''Ethics'', ''Robotics'',
      ''Transformers'', ''Backprop''] \<and>
   length (nodes (visibleData r)) = 8 \<and>
   links (visibleData r) =
     [plain_link (Id ''AGI_CORE'') (Id ''Neural_Nets''), plain_link (Id ''AGI_CORE'') (Id ''Reasoning''),
      plain_link (Id ''AGI_CORE'') (Id ''Creativity''), plain_link (Id ''AGI_CORE'') (Id ''Ethics''),
      plain_link (Id ''AGI_CORE'') (Id ''Robotics''),
      plain_link (Id ''Neural_Nets'') (Id ''Transformers''), plain_link (Id ''Neural_Nets'') (Id ''Backprop'')] \<and>
   length (links (visibleData r)) = 7 \<and>
   length (nodes DEFAULT_GRAPH_DATA) = 16 \<and> length (links DEFAULT_GRAPH_DATA) = 15 \<and>
   map group_n (nodes DEFAULT_GRAPH_DATA) =
     ''center'' # replicate 5 ''planet'' @ replicate 10 ''satellite''"
proof -
  let ?v = "\<lambda>lower. visibility lower DEFAULT_GRAPH_DATA {''center'', ''planet'', ''satellite''}
          {''AGI_CORE'', ''Neural_Nets''} ''''"
  let ?r = "projr (?v ascii_lower)"
  have i: "?v lower = ?v ascii_lower"
    by (simp only: explore_result)
  have r: "?v ascii_lower = Inr ?r" by code_simp
  have v: "?v lower = Inr ?r" using r i by simp
  have f1: "map id_n (nodes (visibleData ?r)) =
     [''AGI_CORE'', ''Neural_Nets'', ''Reasoning'', ''Creativity'', ''Ethics'', ''Robotics'',
      ''Transformers'', ''Backprop'']"
    by code_simp
  have f2: "length (nodes (visibleData ?r)) = 8" by code_simp
  have f3: "links (visibleData ?r) =
     [plain_link (Id ''AGI_CORE'') (Id ''Neural_Nets''), plain_link (Id ''AGI_CORE'') (Id ''Reasoning''),
      plain_link (Id ''AGI_CORE'') (Id ''Creativity''), plain_link (Id ''AGI_CORE'') (Id ''Ethics''),
      plain_link (Id ''AGI_CORE'') (Id ''Robotics''),
      plain_link (Id ''Neural_Nets'') (Id ''Transformers''), plain_link (Id ''Neural_Nets'') (Id ''Backprop'')]"
    by code_simp
  have f4: "length (links (visibleData ?r)) = 7" by code_simp
  have f5: "length (nodes DEFAULT_GRAPH_DATA) = 16" by code_simp
  have f6: "length (links DEFAULT_GRAPH_DATA) = 15" by code_simp
  have f7: "map group_n (nodes DEFAULT_GRAPH_DATA) =
     ''center'' # replicate 5 ''planet'' @ replicate 10 ''satellite''"
    by code_simp
  from v f1 f2 f3 f4 f5 f6 f7 show ?thesis
    by (intro exI [of _ ?r] conjI)
qed

subsection \<open>C9: a click toggles one id\<close>

text \<open>
  C9: a click received while the query is non-empty leaves the expansion set as it is;
  received while the query is empty, it toggles the membership of the id of the clicked
  node, and the membership of every other id stays as it was.
\<close>

theorem click_toggles_one:
  "(searchQuery st \<noteq> [] \<longrightarrow> expandedNodes (handleNodeClick node st) = expandedNodes st) \<and>
   (searchQuery st = [] \<longrightarrow>
      (id_n node \<in> expandedNodes (handleNodeClick node st) \<longleftrightarrow> id_n node \<notin> expandedNodes st) \<and>
      (\<forall>k. k \<noteq> id_n node \<longrightarrow>
         (k \<in> expandedNodes (handleNodeClick node st) \<longleftrightarrow> k \<in> expandedNodes st)))"
  by (auto simp: handleNodeClick_expanded)

text \<open>
  Witness for C9: a click on \<open>Neural_Nets\<close> at startup, and the same click during a search.
\<close>

theorem click_toggles_one_witness:
  "searchQuery initial_state = [] \<and>
   expandedNodes (handleNodeClick (plain_node ''Neural_Nets'' ''N'' ''planet'') initial_state) =
     {''AGI_CORE'', ''Neural_Nets''} \<and>
   ''Neural_Nets'' \<notin> expandedNodes initial_state \<and>
   ''Neural_Nets'' \<in> expandedNodes (handleNodeClick (plain_node ''Neural_Nets'' ''N'' ''planet'') initial_state) \<and>
   searchQuery searching_state \<noteq> [] \<and>
   expandedNodes (handleNodeClick (plain_node ''Neural_Nets'' ''N'' ''planet'') searching_state) =
     expandedNodes searching_state"
proof -
  let ?n = "plain_node ''Neural_Nets'' ''N'' ''planet''"
  have q1: "searchQuery initial_state = []" by (simp add: initial_state_def)
  have q2: "searchQuery searching_state \<noteq> []" by (simp add: searching_state_def)
  have i: "id_n ?n = ''Neural_Nets''" by (simp add: plain_node_def)
  have n: "''Neural_Nets'' \<notin> expandedNodes initial_state" by (simp add: initial_state_def)
  have e: "expandedNodes (handleNodeClick ?n initial_state) = {''AGI_CORE'', ''Neural_Nets''}"
    by (auto simp: handleNodeClick_expanded plain_node_def initial_state_def)
  from click_toggles_one [of initial_state ?n] q1 n i
  have a: "''Neural_Nets'' \<in> expandedNodes (handleNodeClick ?n initial_state)" by simp
  from click_toggles_one [of searching_state ?n] q2
  have b: "expandedNodes (handleNodeClick ?n searching_state) = expandedNodes searching_state" by blast
  from q1 e n a q2 b show ?thesis by (intro conjI)
qed

subsection \<open>C10: satellite gating looks at the expansion set only\<close>


end
